theory Spec2Isabelle
  imports Main
begin

section \<open>The catalog store\<close>

text \<open>
  The exceptions that the modelled code raises or catches: the two store errors of
  pymongo, \<open>struct.error\<close> of \<open>pack\<close>, the \<open>ValueError\<close> of
  \<open>bytes([n])\<close> for \<open>n > 255\<close>, a handle that \<open>FileId.decode\<close> rejects, and
  the \<open>NotImplementedError\<close> of the truth test of a collection object.
\<close>

datatype error =
  DuplicateKeyError | OperationFailure | StructError | ValueError | MalformedHandle
  | NotImplementedError

text \<open>
  A stored document. The dictionary keys of the source are the fields; the keys that
  only some code paths add (\<open>moved_date\<close>, \<open>copied_date\<close>, \<open>source_collection\<close>)
  are optional. \<open>doc_id\<close> is the key \<open>_id\<close>; time stamps are clock readings.
\<close>

record document =
  doc_id :: string
  file_name :: string
  file_size :: int
  caption :: string
  collection_type :: string
  file_type :: string
  added_date :: int
  moved_date :: "int option"
  copied_date :: "int option"
  source_collection :: "string option"

text \<open>The six collection objects of the module; two names may denote the same one.\<close>

datatype handle =
  primary_collection | clouds_collection | archive_collection
  | second_primary | second_clouds | second_archive

text \<open>
  The state of the stores: each collection holds its documents in insertion order,
  \<open>full\<close> is the capacity signal of the engine for a collection (an insert into a full
  collection raises \<open>OperationFailure\<close>), and \<open>SECOND_FILES_DATABASE_URL\<close> tells
  whether the second database is configured.
\<close>

record db =
  colls :: "handle \<Rightarrow> document list"
  full :: "handle \<Rightarrow> bool"
  SECOND_FILES_DATABASE_URL :: bool

definition find_one :: "handle \<Rightarrow> string \<Rightarrow> db \<Rightarrow> document option" where
  "find_one col k d = find (\<lambda>x. doc_id x = k) (colls d col)"

definition insert_one :: "handle \<Rightarrow> document \<Rightarrow> db \<Rightarrow> error + db" where
  "insert_one col doc d =
     (if full d col then Inl OperationFailure
      else if find_one col (doc_id doc) d \<noteq> None then Inl DuplicateKeyError
      else Inr (d\<lparr>colls := (colls d)(col := colls d col @ [doc])\<rparr>))"

fun remove_first :: "('a \<Rightarrow> bool) \<Rightarrow> 'a list \<Rightarrow> 'a list" where
  "remove_first p [] = []"
| "remove_first p (x # xs) = (if p x then xs else x # remove_first p xs)"

definition delete_one :: "handle \<Rightarrow> string \<Rightarrow> db \<Rightarrow> db" where
  "delete_one col k d = d\<lparr>colls := (colls d)(col := remove_first (\<lambda>x. doc_id x = k) (colls d col))\<rparr>"


definition get_collection_by_name :: "string \<Rightarrow> handle" where
  "get_collection_by_name collection_name =
     (if collection_name = ''primary'' then primary_collection
      else if collection_name = ''clouds'' then clouds_collection
      else if collection_name = ''archive'' then archive_collection
      else primary_collection)"

text \<open>The dictionary of the second database's collections, as \<open>.get(name)\<close> reads it.\<close>

definition second_col_get :: "string \<Rightarrow> handle option" where
  "second_col_get collection_name =
     (if collection_name = ''primary'' then Some second_primary
      else if collection_name = ''clouds'' then Some second_clouds
      else if collection_name = ''archive'' then Some second_archive
      else None)"

section \<open>The identifier codec\<close>

text \<open>
  Bytes are numbers below 256, as the elements of a Python \<open>bytes\<close> object are.
  \<open>le_bytes n x\<close> is the little-endian two's complement representation of \<open>x\<close>
  in \<open>n\<close> bytes, which is what \<open>struct.pack\<close> writes for \<open>"<i"\<close> (\<open>n = 4\<close>)
  and \<open>"<q"\<close> (\<open>n = 8\<close>).
\<close>

fun le_bytes :: "nat \<Rightarrow> int \<Rightarrow> nat list" where
  "le_bytes 0 x = []"
| "le_bytes (Suc n) x = nat (x mod 256) # le_bytes n (x div 256)"

definition in_signed_range :: "nat \<Rightarrow> int \<Rightarrow> bool" where
  "in_signed_range bits x \<longleftrightarrow> - (2 ^ (bits - 1)) \<le> x \<and> x < 2 ^ (bits - 1)"

text \<open>\<open>pack("<iiqq", a, b, c, d)\<close>: \<open>struct.error\<close> when a value does not fit its field.\<close>

definition pack_iiqq :: "int \<Rightarrow> int \<Rightarrow> int \<Rightarrow> int \<Rightarrow> error + nat list" where
  "pack_iiqq a b c d =
     (if in_signed_range 32 a \<and> in_signed_range 32 b \<and> in_signed_range 64 c \<and> in_signed_range 64 d
      then Inr (le_bytes 4 a @ le_bytes 4 b @ le_bytes 8 c @ le_bytes 8 d)
      else Inl StructError)"

text \<open>
  The loop of \<open>encode_file_id\<close> over the remaining bytes, with the result \<open>r\<close> so far
  and the length \<open>n\<close> of the current run of zero bytes. \<open>bytes([n])\<close> raises
  \<open>ValueError\<close> for \<open>n > 255\<close>. A run of zeros at the very end is dropped, as in the
  source (there it cannot occur, the last byte being 4).
\<close>

fun encode_loop :: "nat list \<Rightarrow> nat list \<Rightarrow> nat \<Rightarrow> error + nat list" where
  "encode_loop [] r n = Inr r"
| "encode_loop (i # s) r n =
     (if i = 0 then encode_loop s r (n + 1)
      else if n \<noteq> 0 then
        (if n > 255 then Inl ValueError else encode_loop s (r @ [0, n] @ [i]) 0)
      else encode_loop s (r @ [i]) 0)"

text \<open>
  \<open>base64.urlsafe_b64encode\<close> (RFC 4648, the alphabet with \<open>-\<close> and \<open>_\<close>), on
  bytes: three bytes give four characters, and a last group of one or two bytes is
  padded with \<open>=\<close>.
\<close>

definition b64_alphabet :: string where
  "b64_alphabet = ''ABCDEFGHIJKLMNOPQRSTUVWXYZabcdefghijklmnopqrstuvwxyz0123456789-_''"

definition b64_char :: "nat \<Rightarrow> char" where
  "b64_char n = b64_alphabet ! n"

fun urlsafe_b64encode :: "nat list \<Rightarrow> string" where
  "urlsafe_b64encode [] = []"
| "urlsafe_b64encode [a] =
     [b64_char (a div 4), b64_char ((a mod 4) * 16), CHR ''='', CHR ''='']"
| "urlsafe_b64encode [a, b] =
     [b64_char (a div 4), b64_char ((a mod 4) * 16 + b div 16), b64_char ((b mod 16) * 4), CHR ''='']"
| "urlsafe_b64encode (a # b # c # s) =
     [b64_char (a div 4), b64_char ((a mod 4) * 16 + b div 16),
      b64_char ((b mod 16) * 4 + c div 64), b64_char (c mod 64)] @ urlsafe_b64encode s"

text \<open>\<open>.rstrip("=")\<close>\<close>

definition rstrip_eq :: "string \<Rightarrow> string" where
  "rstrip_eq s = rev (dropWhile (\<lambda>c. c = CHR ''='') (rev s))"

definition encode_file_id :: "nat list \<Rightarrow> error + string" where
  "encode_file_id s =
     (case encode_loop (s @ [22] @ [4]) [] 0 of
        Inl e \<Rightarrow> Inl e
      | Inr r \<Rightarrow> Inr (rstrip_eq (urlsafe_b64encode r)))"

text \<open>
  What \<open>FileId.decode\<close> returns: the four fields that the codec reads
  (\<open>file_id_type\<close> is \<open>int(decoded.file_type)\<close>), and whatever else the handle
  carries in the extension of the record.
\<close>

record FileId =
  file_id_type :: int
  dc_id :: int
  media_id :: int
  access_hash :: int

text \<open>
  \<open>unpack_new_file_id\<close>. The decoder of the platform library is a parameter: it
  returns \<open>None\<close> where \<open>FileId.decode\<close> raises.
\<close>

definition unpack_new_file_id :: "('h \<Rightarrow> 'z FileId_scheme option) \<Rightarrow> 'h \<Rightarrow> error + string" where
  "unpack_new_file_id FileId_decode new_file_id =
     (case FileId_decode new_file_id of
        None \<Rightarrow> Inl MalformedHandle
      | Some decoded \<Rightarrow>
          (case pack_iiqq (file_id_type decoded) (dc_id decoded) (media_id decoded) (access_hash decoded) of
             Inl e \<Rightarrow> Inl e
           | Inr s \<Rightarrow> encode_file_id s))"

text \<open>
  The inverse transformations, used to show that the key determines the packed bytes:
  expanding the zero runs, and reading base64 without padding.
\<close>

fun expand_runs :: "nat list \<Rightarrow> nat list" where
  "expand_runs [] = []"
| "expand_runs [b] = [b]"
| "expand_runs (b # n # r) =
     (if b = 0 then replicate n 0 @ expand_runs r else b # expand_runs (n # r))"

fun index_of :: "'a \<Rightarrow> 'a list \<Rightarrow> nat" where
  "index_of c [] = 0"
| "index_of c (x # xs) = (if x = c then 0 else Suc (index_of c xs))"

definition b64_index :: "char \<Rightarrow> nat" where
  "b64_index c = index_of c b64_alphabet"

fun b64decode_unpadded :: "string \<Rightarrow> nat list" where
  "b64decode_unpadded (p # q # r # s # cs) =
     [b64_index p * 4 + b64_index q div 16,
      (b64_index q mod 16) * 16 + b64_index r div 4,
      (b64_index r mod 4) * 64 + b64_index s] @ b64decode_unpadded cs"
| "b64decode_unpadded [p, q, r] =
     [b64_index p * 4 + b64_index q div 16, (b64_index q mod 16) * 16 + b64_index r div 4]"
| "b64decode_unpadded [p, q] = [b64_index p * 4 + b64_index q div 16]"
| "b64decode_unpadded cs = []"

text \<open>A decoded handle is valid when its fields fit the widths the platform gives them.\<close>

definition fields_fit :: "'z FileId_scheme \<Rightarrow> bool" where
  "fields_fit decoded \<longleftrightarrow>
     in_signed_range 32 (file_id_type decoded) \<and> in_signed_range 32 (dc_id decoded) \<and>
     in_signed_range 64 (media_id decoded) \<and> in_signed_range 64 (access_hash decoded)"

text \<open>
  Two handles of one file, from different sessions: the same four fields with
  different surrounding bytes (here a file reference), and a handle of another file.
\<close>

definition example_decode :: "string \<Rightarrow> (nat list) FileId_ext option" where
  "example_decode h =
     (if h = ''session-1'' then
        Some (FileId.extend \<lparr>file_id_type = 5, dc_id = 4, media_id = 123456789012345,
                access_hash = - 987654321098765\<rparr> [1, 2, 3])
      else if h = ''session-2'' then
        Some (FileId.extend \<lparr>file_id_type = 5, dc_id = 4, media_id = 123456789012345,
                access_hash = - 987654321098765\<rparr> [9, 9])
      else if h = ''other-file'' then
        Some (FileId.extend \<lparr>file_id_type = 5, dc_id = 4, media_id = 123456789012346,
                access_hash = - 987654321098765\<rparr> [1, 2, 3])
      else None)"

section \<open>Ingest\<close>

text \<open>
  A character is a code point below 256, and a string a list of them. The classes
  of characters are those of Python on these code points: \<open>\w\<close> is
  \<open>str.isalnum\<close> or the underscore, \<open>str.lower\<close> maps the capital letters of
  ASCII and of Latin-1 to the small ones, and the white space of \<open>str.strip\<close>,
  \<open>str.isspace\<close> and \<open>\s\<close> has twelve characters.
\<close>

definition is_word_char :: "char \<Rightarrow> bool" where
  "is_word_char c =
     (let n = (of_char c :: nat)
      in (48 \<le> n \<and> n \<le> 57) \<or> (65 \<le> n \<and> n \<le> 90) \<or> (97 \<le> n \<and> n \<le> 122) \<or> n = 95 \<or>
         n = 170 \<or> n = 178 \<or> n = 179 \<or> n = 181 \<or> n = 185 \<or> n = 186 \<or> (188 \<le> n \<and> n \<le> 190) \<or>
         (192 \<le> n \<and> n \<le> 214) \<or> (216 \<le> n \<and> n \<le> 246) \<or> 248 \<le> n)"

definition lower_char :: "char \<Rightarrow> char" where
  "lower_char c =
     (let n = (of_char c :: nat)
      in if (65 \<le> n \<and> n \<le> 90) \<or> (192 \<le> n \<and> n \<le> 222 \<and> n \<noteq> 215) then char_of (n + 32) else c)"

definition lower :: "string \<Rightarrow> string" where
  "lower s = map lower_char s"

definition whitespace :: "char list" where
  "whitespace = [CHR 0x09, CHR 0x0A, CHR 0x0B, CHR 0x0C, CHR 0x0D, CHR 0x1C, CHR 0x1D, CHR 0x1E, CHR 0x1F,
     CHR '' '', CHR 0x85, CHR 0xA0]"

definition is_space_char :: "char \<Rightarrow> bool" where
  "is_space_char c \<longleftrightarrow> c \<in> set whitespace"

definition is_digit_char :: "char \<Rightarrow> bool" where
  "is_digit_char c = (let n = (of_char c :: nat) in 48 \<le> n \<and> n \<le> 57)"

definition is_separator :: "char \<Rightarrow> bool" where
  "is_separator c \<longleftrightarrow> c = CHR ''.'' \<or> c = CHR ''+'' \<or> c = CHR ''-'' \<or> c = CHR ''_''"

text \<open>
  \<open>re.sub(r"@\w+|(_|\-|\.|\+)", " ", s)\<close>: from left to right, a mention (\<open>@\<close> and
  the word characters after it, at least one) or a single separator becomes one space.
\<close>

function sub_mentions_separators :: "string \<Rightarrow> string" where
  "sub_mentions_separators [] = []"
| "sub_mentions_separators (c # s) =
     (if c = CHR ''@'' \<and> s \<noteq> [] \<and> is_word_char (hd s)
        then CHR '' '' # sub_mentions_separators (dropWhile is_word_char s)
      else if is_separator c then CHR '' '' # sub_mentions_separators s
      else c # sub_mentions_separators s)"
  by pat_completeness auto
termination
  by (relation "measure length") (auto simp: less_Suc_eq_le length_dropWhile_le)

text \<open>\<open>str(x)\<close> of an attribute that is a string or \<open>None\<close>.\<close>

definition py_str :: "string option \<Rightarrow> string" where
  "py_str x = (case x of None \<Rightarrow> ''None'' | Some s \<Rightarrow> s)"

text \<open>
  The media object that \<open>save_file\<close> receives; \<open>mime_type\<close> is \<open>None\<close> when the
  object has no such attribute.
\<close>

record 'h media =
  media_file_id :: 'h
  media_file_name :: "string option"
  media_caption :: "string option"
  media_file_size :: int
  mime_type :: "string option"

text \<open>The document that \<open>save_file\<close> builds for a media object with the key \<open>file_id\<close>.\<close>

definition save_document :: "string \<Rightarrow> int \<Rightarrow> 'h media \<Rightarrow> string \<Rightarrow> document" where
  "save_document file_id now media collection_name =
     \<lparr>doc_id = file_id,
      file_name = sub_mentions_separators (py_str (media_file_name media)),
      file_size = media_file_size media,
      caption = sub_mentions_separators (py_str (media_caption media)),
      collection_type = collection_name,
      file_type = (case mime_type media of None \<Rightarrow> ''unknown'' | Some t \<Rightarrow> t),
      added_date = now, moved_date = None, copied_date = None,
      source_collection = None\<rparr>"

text \<open>
  \<open>save_file\<close>. The result is the returned pair of status and collection name, or the
  exception that leaves the function, and the state of the stores afterwards.
\<close>

definition save_file ::
  "('h \<Rightarrow> 'z FileId_scheme option) \<Rightarrow> int \<Rightarrow> 'h media \<Rightarrow> string \<Rightarrow> db \<Rightarrow> (error + string \<times> string) \<times> db" where
  "save_file FileId_decode now media collection_name d =
     (case unpack_new_file_id FileId_decode (media_file_id media) of
        Inl e \<Rightarrow> (Inl e, d)
      | Inr file_id \<Rightarrow>
          (let document = save_document file_id now media collection_name;
               target_col = get_collection_by_name collection_name
           in case insert_one target_col document d of
                Inr d' \<Rightarrow> (Inr (''suc'', collection_name), d')
              | Inl DuplicateKeyError \<Rightarrow> (Inr (''dup'', collection_name), d)
              | Inl OperationFailure \<Rightarrow>
                  (if SECOND_FILES_DATABASE_URL d then
                     (let second_col = (case second_col_get collection_name of
                                          None \<Rightarrow> second_primary | Some col \<Rightarrow> col)
                      in case insert_one second_col document d of
                           Inr d' \<Rightarrow> (Inr (''suc'', ''second_'' @ collection_name), d')
                         | Inl DuplicateKeyError \<Rightarrow> (Inr (''dup'', ''second_'' @ collection_name), d)
                         | Inl e \<Rightarrow> (Inl e, d))
                   else (Inr (''err'', collection_name), d))
              | Inl e \<Rightarrow> (Inl e, d)))"

section \<open>Query building\<close>

text \<open>\<open>str.strip()\<close>\<close>

definition strip :: "string \<Rightarrow> string" where
  "strip s = rev (dropWhile is_space_char (rev (dropWhile is_space_char s)))"

text \<open>The separators of the patterns, \<open>. + - _\<close>.\<close>

definition separators :: "char list" where
  "separators = ''.+-_''"

text \<open>
  The texts \<open>(\b|[\.\+\-_])\<close> and \<open>.*[\s\.\+\-_]\<close> from which the patterns are
  built, and \<open>query.replace(' ', r'.*[\s\.\+\-_]')\<close>.
\<close>

definition side :: string where
  "side = [CHR ''('', CHR 0x5C, CHR ''b'', CHR ''|'', CHR ''['', CHR 0x5C, CHR ''.'', CHR 0x5C, CHR ''+'',
     CHR 0x5C, CHR ''-'', CHR ''_'', CHR '']'', CHR '')'']"

definition gap :: string where
  "gap = [CHR ''.'', CHR ''*'', CHR ''['', CHR 0x5C, CHR ''s'', CHR 0x5C, CHR ''.'', CHR 0x5C, CHR ''+'',
     CHR 0x5C, CHR ''-'', CHR ''_'', CHR '']'']"

definition replace_spaces :: "string \<Rightarrow> string" where
  "replace_spaces query = concat (map (\<lambda>c. if c = CHR '' '' then gap else [c]) query)"

text \<open>
  The pattern of a stripped query, as a text: \<open>'.'\<close> for the empty one,
  \<open>(\b|[\.\+\-_])query(\b|[\.\+\-_])\<close> for one without a space, and the query with
  its spaces replaced otherwise. The query is not escaped.
\<close>

definition raw_pattern :: "string \<Rightarrow> string" where
  "raw_pattern query =
     (if query = [] then ''.''
      else if CHR '' '' \<notin> set query then side @ query @ side
      else replace_spaces query)"

subsection \<open>Compiled patterns\<close>

text \<open>
  The syntax tree of a compiled pattern. A character class is a list of characters,
  ranges and categories (\<open>\d \s \w\<close> and their complements), negated or not;
  \<open>Bos\<close> is \<open>^\<close> or \<open>\A\<close>, \<open>Eol\<close> is \<open>$\<close>, \<open>Eos\<close> is \<open>\Z\<close>;
  \<open>Times n r\<close> is \<open>r\<close> exactly \<open>n\<close> times, and \<open>UpTo n r\<close> is \<open>r\<close> at
  most \<open>n\<close> times.
\<close>

datatype category = Digit | Space | Word

datatype citem = CChar char | CRange char char | CCat category | CNotCat category

datatype regex =
  Eps | Lit char | AnyChar | Cls bool "citem list" | WordBoundary | Bos | Eol | Eos
  | Seq regex regex | Alt regex regex | Star regex | Times nat regex | UpTo nat regex

text \<open>
  Matching with \<open>re.IGNORECASE\<close>. A literal, also as a member of a class, matches a
  character with the same lowercase form; a range holds the lowercase forms of its
  characters; whether a character is in a category does not depend on its case.
\<close>

definition in_category :: "category \<Rightarrow> char \<Rightarrow> bool" where
  "in_category cat c = (case cat of Digit \<Rightarrow> is_digit_char c | Space \<Rightarrow> is_space_char c | Word \<Rightarrow> is_word_char c)"

fun item_matches :: "citem \<Rightarrow> char \<Rightarrow> bool" where
  "item_matches (CChar c) x = (lower_char x = lower_char c)"
| "item_matches (CRange lo hi) x =
     list_ex (\<lambda>n. lower_char x = lower_char (char_of n)) [of_char lo..<Suc (of_char hi)]"
| "item_matches (CCat cat) x = in_category cat x"
| "item_matches (CNotCat cat) x = (\<not> in_category cat x)"

definition class_matches :: "bool \<Rightarrow> citem list \<Rightarrow> char \<Rightarrow> bool" where
  "class_matches negate items x = (list_ex (\<lambda>it. item_matches it x) items \<noteq> negate)"

definition word_at :: "string \<Rightarrow> nat \<Rightarrow> bool" where
  "word_at s i \<longleftrightarrow> i < length s \<and> is_word_char (s ! i)"

text \<open>\<open>\b\<close>: exactly one of the characters before and after the position is a word character.\<close>

definition word_boundary :: "string \<Rightarrow> nat \<Rightarrow> bool" where
  "word_boundary s i \<longleftrightarrow> (0 < i \<and> word_at s (i - 1)) \<noteq> word_at s i"

text \<open>
  The iterations of a repeated pattern: \<open>star_ends step n i\<close> makes at most \<open>n\<close>
  rounds from position \<open>i\<close>, each of which advances (a round that matches the empty
  text adds no end position); \<open>iter_ends step n i\<close> makes exactly \<open>n\<close> rounds. A
  starred pattern needs no more rounds than characters are left.
\<close>

fun star_ends :: "(nat \<Rightarrow> nat list) \<Rightarrow> nat \<Rightarrow> nat \<Rightarrow> nat list" where
  "star_ends step 0 i = [i]"
| "star_ends step (Suc n) i = concat (map (star_ends step n) (filter (\<lambda>j. i < j) (step i))) @ [i]"

fun iter_ends :: "(nat \<Rightarrow> nat list) \<Rightarrow> nat \<Rightarrow> nat \<Rightarrow> nat list" where
  "iter_ends step 0 i = [i]"
| "iter_ends step (Suc n) i = concat (map (iter_ends step n) (step i))"

text \<open>
  \<open>ends r s i\<close> lists the positions where a match of \<open>r\<close> that starts at position
  \<open>i\<close> of the subject \<open>s\<close> can end, in the order a backtracking matcher tries them.
  \<open>.\<close> matches any character but the line feed, \<open>$\<close> matches at the end and
  before a line feed at the end.
\<close>

primrec ends :: "regex \<Rightarrow> string \<Rightarrow> nat \<Rightarrow> nat list" where
  "ends Eps s i = [i]"
| "ends (Lit c) s i = (if i < length s \<and> lower_char (s ! i) = lower_char c then [Suc i] else [])"
| "ends AnyChar s i = (if i < length s \<and> s ! i \<noteq> CHR 0x0A then [Suc i] else [])"
| "ends (Cls negate items) s i = (if i < length s \<and> class_matches negate items (s ! i) then [Suc i] else [])"
| "ends WordBoundary s i = (if word_boundary s i then [i] else [])"
| "ends Bos s i = (if i = 0 then [i] else [])"
| "ends Eol s i = (if i = length s \<or> (Suc i = length s \<and> s ! i = CHR 0x0A) then [i] else [])"
| "ends Eos s i = (if i = length s then [i] else [])"
| "ends (Seq a b) s i = concat (map (ends b s) (ends a s i))"
| "ends (Alt a b) s i = ends a s i @ ends b s i"
| "ends (Star a) s i = star_ends (ends a s) (length s - i) i"
| "ends (Times n a) s i = iter_ends (ends a s) n i"
| "ends (UpTo n a) s i = star_ends (ends a s) n i"

text \<open>A regular expression as a filter matches anywhere in the field.\<close>

definition re_search :: "regex \<Rightarrow> string \<Rightarrow> bool" where
  "re_search r s = list_ex (\<lambda>i. ends r s i \<noteq> []) [0..<Suc (length s)]"

subsection \<open>Compiling a pattern\<close>

text \<open>
  \<open>re.compile(pattern, flags=re.IGNORECASE)\<close>, after the parser of the \<open>re\<close> module.
  The outcome is a result, \<open>Raises\<close> when \<open>re.compile\<close> raises an exception, or
  \<open>Unsupported\<close> for a pattern outside the modelled part of the syntax, about which
  nothing is stated. Outside it are the constructs that are not modelled (groups that
  start with \<open>(?\<close> other than \<open>(?:\<close>, that is look-around, named groups, flags and
  comments; backreferences and the escapes with a digit or with \<open>x u U N\<close>), those
  whose reading depends on the version of Python (possessive quantifiers, which are an
  error before 3.11; \<open>\B\<close>, which differs on the empty subject; \<open>\z\<close>; the
  character classes on which the module warns of a coming change, with a bracket right
  after the opening one or a doubled \<open>- & ~ |\<close>), and groups nested more than a
  hundred deep, where the recursion limit of the interpreter decides.
\<close>

datatype 'a outcome = Ok 'a | Raises | Unsupported

datatype quant = QStar | QPlus | QOpt | QRange nat "nat option"

datatype token = TAtom regex | TAt regex | TQuant quant | TBar | TOpen | TClose

text \<open>The largest repetition count of the \<open>re\<close> module.\<close>

definition MAXREPEAT :: int where
  "MAXREPEAT = 4294967295"

definition is_ascii_letter :: "char \<Rightarrow> bool" where
  "is_ascii_letter c = (let n = (of_char c :: nat) in (65 \<le> n \<and> n \<le> 90) \<or> (97 \<le> n \<and> n \<le> 122))"

text \<open>
  Escapes. \<open>\a \f \n \r \t \v\<close> and the escaped backslash are characters; the
  categories are classes; outside a class \<open>\A \b \Z\<close> are positions, inside one
  \<open>\b\<close> is the backspace; any other ASCII letter is an error, and any other
  character stands for itself.
\<close>

definition control_escape :: "char \<Rightarrow> char option" where
  "control_escape e =
     (if e = CHR ''a'' then Some (CHR 0x07)
      else if e = CHR ''f'' then Some (CHR 0x0C)
      else if e = CHR ''n'' then Some (CHR 0x0A)
      else if e = CHR ''r'' then Some (CHR 0x0D)
      else if e = CHR ''t'' then Some (CHR 0x09)
      else if e = CHR ''v'' then Some (CHR 0x0B)
      else if e = CHR 0x5C then Some (CHR 0x5C)
      else None)"

definition category_escape :: "char \<Rightarrow> citem option" where
  "category_escape e =
     (if e = CHR ''d'' then Some (CCat Digit)
      else if e = CHR ''D'' then Some (CNotCat Digit)
      else if e = CHR ''s'' then Some (CCat Space)
      else if e = CHR ''S'' then Some (CNotCat Space)
      else if e = CHR ''w'' then Some (CCat Word)
      else if e = CHR ''W'' then Some (CNotCat Word)
      else None)"

definition unmodelled_escape :: "char \<Rightarrow> bool" where
  "unmodelled_escape e \<longleftrightarrow> e \<in> set ''xuUNz0123456789''"

definition escape :: "char \<Rightarrow> token outcome" where
  "escape e =
     (if e = CHR ''A'' then Ok (TAt Bos)
      else if e = CHR ''b'' then Ok (TAt WordBoundary)
      else if e = CHR ''B'' then Unsupported
      else if e = CHR ''Z'' then Ok (TAt Eos)
      else case category_escape e of
        Some it \<Rightarrow> Ok (TAtom (Cls False [it]))
      | None \<Rightarrow>
          (case control_escape e of
             Some c \<Rightarrow> Ok (TAtom (Lit c))
           | None \<Rightarrow>
               if unmodelled_escape e then Unsupported
               else if is_ascii_letter e then Raises
               else Ok (TAtom (Lit e))))"

definition class_escape :: "char \<Rightarrow> citem outcome" where
  "class_escape e =
     (if e = CHR ''b'' then Ok (CChar (CHR 0x08))
      else case control_escape e of
        Some c \<Rightarrow> Ok (CChar c)
      | None \<Rightarrow>
          (case category_escape e of
             Some it \<Rightarrow> Ok it
           | None \<Rightarrow>
               if unmodelled_escape e then Unsupported
               else if is_ascii_letter e then Raises
               else Ok (CChar e)))"

text \<open>One member of a character class, a character or an escape, and the text after it.\<close>

fun class_code :: "string \<Rightarrow> (citem \<times> string) outcome" where
  "class_code [] = Raises"
| "class_code (c # cs) =
     (if c = CHR 0x5C then
        (case cs of
           [] \<Rightarrow> Raises
         | e # rest \<Rightarrow>
             (case class_escape e of
                Ok it \<Rightarrow> Ok (it, rest)
              | Raises \<Rightarrow> Raises
              | Unsupported \<Rightarrow> Unsupported))
      else Ok (CChar c, cs))"

text \<open>
  The members of a character class up to the closing bracket, which closes the class only
  after the first member. A hyphen between two characters makes a range, whose bounds
  must be characters in ascending order; a hyphen before the closing bracket is a
  character.
\<close>

function class_items :: "citem list \<Rightarrow> string \<Rightarrow> (citem list \<times> string) outcome" where
  "class_items items [] = Raises"
| "class_items items (this # cs) =
     (if this = CHR '']'' \<and> items \<noteq> [] then Ok (items, cs)
      else if items \<noteq> [] \<and> this \<in> set ''-&~|'' \<and> cs \<noteq> [] \<and> hd cs = this then Unsupported
      else
        (case class_code (this # cs) of
           Raises \<Rightarrow> Raises
         | Unsupported \<Rightarrow> Unsupported
         | Ok (code1, cs2) \<Rightarrow>
             if cs2 \<noteq> [] \<and> hd cs2 = CHR ''-'' then
               (case tl cs2 of
                  [] \<Rightarrow> Raises
                | that # cs4 \<Rightarrow>
                    if that = CHR '']'' then Ok (items @ [code1, CChar (CHR ''-'')], cs4)
                    else if that = CHR ''-'' then Unsupported
                    else
                      (case class_code (that # cs4) of
                         Raises \<Rightarrow> Raises
                       | Unsupported \<Rightarrow> Unsupported
                       | Ok (code2, cs5) \<Rightarrow>
                           (case (code1, code2) of
                              (CChar lo, CChar hi) \<Rightarrow>
                                if (of_char hi :: nat) < of_char lo then Raises
                                else class_items (items @ [CRange lo hi]) cs5
                            | _ \<Rightarrow> Raises)))
             else class_items (items @ [code1]) cs2))"
  by pat_completeness auto
termination
proof (relation "measure (\<lambda>(items, cs). length cs)", goal_cases)
  have code_length: "length rest < length cs" if "class_code cs = Ok (it, rest)" for cs it rest
    using that by (cases cs) (auto split: if_splits list.splits outcome.splits)
  {
    case 1
    then show ?case by simp
  next
    case (2 items this cs x2 code1 cs2 that cs4 x2a code2 cs5 lo hi)
    from 2 have a: "length cs2 < length (this # cs)"
      using code_length [of "this # cs" code1 cs2] by simp
    from 2 have b: "length (that # cs4) < length cs2"
      by (cases cs2) auto
    from 2 have c: "length cs5 < length (that # cs4)"
      using code_length [of "that # cs4" code2 cs5] by simp
    from a b c show ?case by simp
  next
    case (3 items this cs x2 code1 cs2)
    then show ?case
      using code_length [of "this # cs" code1 cs2] by simp
  }
qed

text \<open>The character class after an opening bracket: \<open>^\<close> at the start negates it.\<close>

definition scan_class :: "string \<Rightarrow> (regex \<times> string) outcome" where
  "scan_class cs =
     (if cs \<noteq> [] \<and> hd cs = CHR ''['' then Unsupported
      else
        (let negate = (cs \<noteq> [] \<and> hd cs = CHR ''^'')
         in case class_items [] (if negate then tl cs else cs) of
              Ok (items, rest) \<Rightarrow> Ok (Cls negate items, rest)
            | Raises \<Rightarrow> Raises
            | Unsupported \<Rightarrow> Unsupported))"

text \<open>
  The text after an opening brace is a repetition when it reads \<open>m}\<close>, \<open>m,n}\<close>,
  \<open>m,}\<close>, \<open>,n}\<close> or \<open>,}\<close>, with decimal numbers; this gives the two numerals and
  the text after the closing brace. Otherwise the brace is a character.
\<close>

definition scan_repeat :: "string \<Rightarrow> (string \<times> string \<times> string) option" where
  "scan_repeat cs =
     (if cs \<noteq> [] \<and> hd cs = CHR ''}'' then None
      else
        (let lo = takeWhile is_digit_char cs; cs1 = dropWhile is_digit_char cs
         in if cs1 \<noteq> [] \<and> hd cs1 = CHR '','' then
              (let hi = takeWhile is_digit_char (tl cs1); cs2 = dropWhile is_digit_char (tl cs1)
               in if cs2 \<noteq> [] \<and> hd cs2 = CHR ''}'' then Some (lo, hi, tl cs2) else None)
            else if cs1 \<noteq> [] \<and> hd cs1 = CHR ''}'' then Some (lo, lo, tl cs1)
            else None))"

definition decimal :: "string \<Rightarrow> int" where
  "decimal ds = foldl (\<lambda>n c. 10 * n + (of_char c - 48)) 0 ds"

definition repeat_quant :: "string \<Rightarrow> string \<Rightarrow> quant outcome" where
  "repeat_quant lo hi =
     (let min = (if lo = [] then 0 else decimal lo)
      in if min \<ge> MAXREPEAT then Raises
         else if hi = [] then Ok (QRange (nat min) None)
         else if decimal hi \<ge> MAXREPEAT then Raises
         else if decimal hi < min then Raises
         else Ok (QRange (nat min) (Some (nat (decimal hi)))))"

text \<open>
  After a quantifier, \<open>?\<close> makes it lazy, which does not change whether the pattern
  matches, and \<open>+\<close> makes it possessive (\<open>None\<close>).
\<close>

definition quant_suffix :: "string \<Rightarrow> string option" where
  "quant_suffix cs =
     (if cs \<noteq> [] \<and> hd cs = CHR ''+'' then None
      else if cs \<noteq> [] \<and> hd cs = CHR ''?'' then Some (tl cs)
      else Some cs)"

definition cons_outcome :: "'a \<Rightarrow> 'a list outcome \<Rightarrow> 'a list outcome" where
  "cons_outcome x r = (case r of Ok xs \<Rightarrow> Ok (x # xs) | Raises \<Rightarrow> Raises | Unsupported \<Rightarrow> Unsupported)"

text \<open>The pattern text as a list of tokens, from left to right.\<close>

function tokenize :: "string \<Rightarrow> token list outcome" where
  "tokenize [] = Ok []"
| "tokenize (c # cs) =
     (if c = CHR 0x5C then
        (case cs of
           [] \<Rightarrow> Raises
         | e # rest \<Rightarrow>
             (case escape e of
                Ok t \<Rightarrow> cons_outcome t (tokenize rest)
              | Raises \<Rightarrow> Raises
              | Unsupported \<Rightarrow> Unsupported))
      else if c = CHR ''['' then
        (case scan_class cs of
           Ok (r, rest) \<Rightarrow> cons_outcome (TAtom r) (tokenize rest)
         | Raises \<Rightarrow> Raises
         | Unsupported \<Rightarrow> Unsupported)
      else if c = CHR ''*'' \<or> c = CHR ''+'' \<or> c = CHR ''?'' then
        (case quant_suffix cs of
           None \<Rightarrow> Unsupported
         | Some rest \<Rightarrow>
             cons_outcome (TQuant (if c = CHR ''*'' then QStar else if c = CHR ''+'' then QPlus else QOpt))
               (tokenize rest))
      else if c = CHR ''{'' then
        (case scan_repeat cs of
           None \<Rightarrow> cons_outcome (TAtom (Lit c)) (tokenize cs)
         | Some (lo, hi, rest) \<Rightarrow>
             (case repeat_quant lo hi of
                Ok q \<Rightarrow>
                  (case quant_suffix rest of
                     None \<Rightarrow> Unsupported
                   | Some rest' \<Rightarrow> cons_outcome (TQuant q) (tokenize rest'))
              | Raises \<Rightarrow> Raises
              | Unsupported \<Rightarrow> Unsupported))
      else if c = CHR ''('' then
        (if cs \<noteq> [] \<and> hd cs = CHR ''?'' then
           (if tl cs = [] then Raises
            else if hd (tl cs) = CHR '':'' then cons_outcome TOpen (tokenize (tl (tl cs)))
            else Unsupported)
         else cons_outcome TOpen (tokenize cs))
      else if c = CHR '')'' then cons_outcome TClose (tokenize cs)
      else if c = CHR ''|'' then cons_outcome TBar (tokenize cs)
      else if c = CHR ''.'' then cons_outcome (TAtom AnyChar) (tokenize cs)
      else if c = CHR ''^'' then cons_outcome (TAt Bos) (tokenize cs)
      else if c = CHR ''$'' then cons_outcome (TAt Eol) (tokenize cs)
      else cons_outcome (TAtom (Lit c)) (tokenize cs))"
  by pat_completeness auto
termination
proof (relation "measure length", goal_cases)
  have code_length: "length rest < length cs" if "class_code cs = Ok (it, rest)" for cs it rest
    using that by (cases cs) (auto split: if_splits list.splits outcome.splits)
  have items_length: "length rest < length cs"
    if "class_items items cs = Ok (items', rest)" for items cs items' rest
    using that
  proof (induction items cs rule: class_items.induct)
    case (1 items)
    then show ?case by simp
  next
    case (2 items this cs)
    note eq = "2.prems" [unfolded class_items.simps(2)]
    show ?case
    proof (cases "this = CHR '']'' \<and> items \<noteq> []")
      case True
      with eq show ?thesis by simp
    next
      case n1: False
      show ?thesis
      proof (cases "items \<noteq> [] \<and> this \<in> set ''-&~|'' \<and> cs \<noteq> [] \<and> hd cs = this")
        case True
        from eq [unfolded if_not_P [OF n1] if_P [OF True]] show ?thesis by simp
      next
        case n2: False
        note eq2 = eq [unfolded if_not_P [OF n1] if_not_P [OF n2]]
        show ?thesis
        proof (cases "class_code (this # cs)")
          case Raises
          from eq2 [unfolded Raises] show ?thesis by simp
        next
          case Unsupported
          from eq2 [unfolded Unsupported] show ?thesis by simp
        next
          case (Ok p)
          obtain code1 cs2 where p: "p = (code1, cs2)" by (cases p)
          from Ok p have c1: "class_code (this # cs) = Ok (code1, cs2)" by simp
          from code_length [OF c1] have l2: "length cs2 < length (this # cs)" .
          note eq3 = eq2 [unfolded c1 outcome.case prod.case]
          show ?thesis
          proof (cases "cs2 \<noteq> [] \<and> hd cs2 = CHR ''-''")
            case n3: False
            from eq3 [unfolded if_not_P [OF n3]]
            have "class_items (items @ [code1]) cs2 = Ok (items', rest)" .
            with "2.IH"(2) [OF n1 n2 c1 refl n3] have "length rest < length cs2" by blast
            with l2 show ?thesis by simp
          next
            case t3: True
            note eq4 = eq3 [unfolded if_P [OF t3]]
            show ?thesis
            proof (cases "tl cs2")
              case Nil
              from eq4 [unfolded Nil] show ?thesis by simp
            next
              case (Cons that cs4)
              from t3 Cons have l4: "length (that # cs4) < length cs2"
                by (cases cs2) auto
              note eq5 = eq4 [unfolded Cons list.case]
              show ?thesis
              proof (cases "that = CHR '']''")
                case True
                from eq5 [unfolded if_P [OF True]] have "rest = cs4" by simp
                with l4 l2 show ?thesis by simp
              next
                case n4: False
                show ?thesis
                proof (cases "that = CHR ''-''")
                  case True
                  from eq5 [unfolded if_not_P [OF n4] if_P [OF True]] show ?thesis by simp
                next
                  case n5: False
                  note eq6 = eq5 [unfolded if_not_P [OF n4] if_not_P [OF n5]]
                  show ?thesis
                  proof (cases "class_code (that # cs4)")
                    case Raises
                    from eq6 [unfolded Raises] show ?thesis by simp
                  next
                    case Unsupported
                    from eq6 [unfolded Unsupported] show ?thesis by simp
                  next
                    case q: (Ok q)
                    obtain code2 cs5 where q2: "q = (code2, cs5)" by (cases q)
                    from q q2 have c2: "class_code (that # cs4) = Ok (code2, cs5)" by simp
                    from code_length [OF c2] have l5: "length cs5 < length (that # cs4)" .
                    from eq6 [unfolded c2 outcome.case prod.case]
                    obtain lo hi where lh: "code1 = CChar lo" "code2 = CChar hi"
                      "\<not> (of_char hi :: nat) < of_char lo"
                      "class_items (items @ [CRange lo hi]) cs5 = Ok (items', rest)"
                      by (auto split: citem.splits if_splits)
                    from "2.IH"(1) [OF n1 n2 c1 refl t3 Cons n4 n5 c2 refl refl lh(1) lh(2) lh(3) lh(4)]
                    have "length rest < length cs5" .
                    with l5 l4 l2 show ?thesis by simp
                  qed
                qed
              qed
            qed
          qed
        qed
      qed
    qed
  qed
  have class_length: "length rest < Suc (length cs)" if "scan_class cs = Ok (r, rest)" for cs r rest
  proof -
    from that obtain items body where b: "class_items [] body = Ok (items, rest)"
      and l: "body = cs \<or> body = tl cs"
      by (auto simp: scan_class_def Let_def split: if_splits outcome.splits)
    from items_length [OF b] l show ?thesis
      by (cases cs) auto
  qed
  have repeat_length: "length rest < length cs" if "scan_repeat cs = Some (lo, hi, rest)" for cs lo hi rest
  proof -
    have d: "length (dropWhile p xs) \<le> length xs" for p and xs :: string
      by (rule length_dropWhile_le)
    have t: "xs \<noteq> [] \<Longrightarrow> length (tl xs) < length xs" for xs :: string
      by (cases xs) auto
    let ?cs1 = "dropWhile is_digit_char cs"
    let ?cs2 = "dropWhile is_digit_char (tl ?cs1)"
    from that have "(?cs1 \<noteq> [] \<and> rest = tl ?cs1) \<or> (?cs1 \<noteq> [] \<and> ?cs2 \<noteq> [] \<and> rest = tl ?cs2)"
      by (auto simp: scan_repeat_def Let_def split: if_splits)
    then show ?thesis
    proof
      assume b: "?cs1 \<noteq> [] \<and> rest = tl ?cs1"
      with t [of ?cs1] have "length rest < length ?cs1" by blast
      also have "\<dots> \<le> length cs" by (rule d)
      finally show ?thesis .
    next
      assume b: "?cs1 \<noteq> [] \<and> ?cs2 \<noteq> [] \<and> rest = tl ?cs2"
      with t [of ?cs2] have "length rest < length ?cs2" by blast
      also have "\<dots> \<le> length (tl ?cs1)" by (rule d)
      also from b t [of ?cs1] have "\<dots> < length ?cs1" by blast
      also have "\<dots> \<le> length cs" by (rule d)
      finally show ?thesis .
    qed
  qed
  have suffix_length: "length rest \<le> length cs" if "quant_suffix cs = Some rest" for cs rest
    using that by (auto simp: quant_suffix_def split: if_splits)
  {
    case 1
    then show ?case by simp
  next
    case (2 c cs e rest t)
    then show ?case by simp
  next
    case (3 c cs x1 r rest)
    then show ?case
      using class_length [of cs r rest] by simp
  next
    case (4 c cs rest)
    then show ?case
      using suffix_length [of cs rest] by simp
  next
    case (5 c cs)
    then show ?case by simp
  next
    case (6 c cs x2 lo y hi rest q rest')
    then show ?case
      using repeat_length [of cs lo hi rest] suffix_length [of rest rest'] by simp
  next
    case (7 c cs)
    then show ?case by (cases cs) auto
  next
    case (8 c cs)
    then show ?case by simp
  next
    case (9 c cs)
    then show ?case by simp
  next
    case (10 c cs)
    then show ?case by simp
  next
    case (11 c cs)
    then show ?case by simp
  next
    case (12 c cs)
    then show ?case by simp
  next
    case (13 c cs)
    then show ?case by simp
  next
    case (14 c cs)
    then show ?case by simp
  }
qed

declare class_items.simps [simp del]

declare tokenize.simps [simp del]

text \<open>
  The parser keeps the items of the sequence it is reading (last first), the finished
  alternatives of the group it is in, and the same for each enclosing group. A
  quantifier applies to the last item, which must be there and be neither a position
  ("nothing to repeat") nor a repetition ("multiple repeat"); a closing parenthesis needs
  an open group, and at the end no group may be open.
\<close>

datatype kind = KAtom | KAt | KRepeat

fun seq_of :: "regex list \<Rightarrow> regex" where
  "seq_of [] = Eps"
| "seq_of [r] = r"
| "seq_of (r # rs) = Seq r (seq_of rs)"

fun alt_of :: "regex list \<Rightarrow> regex" where
  "alt_of [] = Eps"
| "alt_of [r] = r"
| "alt_of (r # rs) = Alt r (alt_of rs)"

definition branch :: "(kind \<times> regex) list \<Rightarrow> regex list \<Rightarrow> regex" where
  "branch cur alts = alt_of (rev (seq_of (map snd (rev cur)) # alts))"

definition apply_quant :: "quant \<Rightarrow> regex \<Rightarrow> regex" where
  "apply_quant q r =
     (case q of
        QStar \<Rightarrow> Star r
      | QPlus \<Rightarrow> Seq r (Star r)
      | QOpt \<Rightarrow> UpTo 1 r
      | QRange m None \<Rightarrow> Seq (Times m r) (Star r)
      | QRange m (Some n) \<Rightarrow> Seq (Times m r) (UpTo (n - m) r))"

definition nesting_limit :: nat where
  "nesting_limit = 100"

fun parse_tokens ::
  "token list \<Rightarrow> (kind \<times> regex) list \<Rightarrow> regex list \<Rightarrow> ((kind \<times> regex) list \<times> regex list) list
     \<Rightarrow> regex outcome" where
  "parse_tokens [] cur alts stack = (if stack = [] then Ok (branch cur alts) else Raises)"
| "parse_tokens (t # ts) cur alts stack =
     (case t of
        TAtom r \<Rightarrow> parse_tokens ts ((KAtom, r) # cur) alts stack
      | TAt r \<Rightarrow> parse_tokens ts ((KAt, r) # cur) alts stack
      | TQuant q \<Rightarrow>
          (case cur of
             [] \<Rightarrow> Raises
           | (k, r) # cur' \<Rightarrow>
               if k = KAtom then parse_tokens ts ((KRepeat, apply_quant q r) # cur') alts stack
               else Raises)
      | TBar \<Rightarrow> parse_tokens ts [] (seq_of (map snd (rev cur)) # alts) stack
      | TOpen \<Rightarrow>
          if nesting_limit \<le> length stack then Unsupported
          else parse_tokens ts [] [] ((cur, alts) # stack)
      | TClose \<Rightarrow>
          (case stack of
             [] \<Rightarrow> Raises
           | (cur', alts') # stack' \<Rightarrow> parse_tokens ts ((KAtom, branch cur alts) # cur') alts' stack'))"

definition re_compile :: "string \<Rightarrow> regex outcome" where
  "re_compile pattern =
     (case tokenize pattern of
        Ok ts \<Rightarrow> parse_tokens ts [] [] []
      | Raises \<Rightarrow> Raises
      | Unsupported \<Rightarrow> Unsupported)"

subsection \<open>The filter of a search\<close>

text \<open>
  The value of the variable \<open>regex\<close>: the compiled pattern, or, when \<open>re.compile\<close>
  raises, the query itself (\<open>except: regex = query\<close>), which as a filter asks for a
  field equal to it.
\<close>

datatype pattern = Compiled regex | Plain string

definition compile_query :: "string \<Rightarrow> pattern option" where
  "compile_query query =
     (case re_compile (raw_pattern query) of
        Ok r \<Rightarrow> Some (Compiled r)
      | Raises \<Rightarrow> Some (Plain query)
      | Unsupported \<Rightarrow> None)"

definition field_matches :: "pattern \<Rightarrow> string \<Rightarrow> bool" where
  "field_matches regex field = (case regex of Compiled r \<Rightarrow> re_search r field | Plain query \<Rightarrow> field = query)"

text \<open>
  The filter on a document: \<open>{'$or': [{'file_name': regex}, {'caption': regex}]}\<close>
  when \<open>USE_CAPTION_FILTER\<close> is set, \<open>{'file_name': regex}\<close> otherwise.
\<close>

definition filter_query :: "bool \<Rightarrow> pattern \<Rightarrow> document \<Rightarrow> bool" where
  "filter_query USE_CAPTION_FILTER regex doc =
     (if USE_CAPTION_FILTER then field_matches regex (file_name doc) \<or> field_matches regex (caption doc)
      else field_matches regex (file_name doc))"


text \<open>
  The characters with a meaning of their own in a pattern, the special characters of
  the parser; a query without them is plain.
\<close>

definition metacharacters :: "char list" where
  "metacharacters = [CHR ''.'', CHR ''^'', CHR ''$'', CHR ''*'', CHR ''+'', CHR ''?'', CHR ''{'',
     CHR ''['', CHR 0x5C, CHR ''|'', CHR ''('', CHR '')'']"

definition plain_query :: "string \<Rightarrow> bool" where
  "plain_query query = list_all (\<lambda>c. c \<notin> set metacharacters) query"





section \<open>The reorganizer\<close>

text \<open>A returned message: a fixed text of the source, or \<open>str(e)\<close> of a caught exception.\<close>

datatype message = Msg string | Str error

text \<open>
  \<open>move_file\<close>; \<open>now\<close> is the reading of \<open>datetime.now()\<close>. The result is the
  returned tuple and the state of the stores afterwards.
\<close>

definition move_file :: "int \<Rightarrow> string \<Rightarrow> string \<Rightarrow> string \<Rightarrow> db \<Rightarrow> (bool \<times> message) \<times> db" where
  "move_file now file_id from_collection to_collection d =
     (let from_col = get_collection_by_name from_collection;
          to_col = get_collection_by_name to_collection
      in case find_one from_col file_id d of
           None \<Rightarrow> ((False, Msg ''File not found in source collection''), d)
         | Some file \<Rightarrow>
             (let file' = file\<lparr>collection_type := to_collection, moved_date := Some now\<rparr>
              in case insert_one to_col file' d of
                   Inl e \<Rightarrow> ((False, Str e), d)
                 | Inr d' \<Rightarrow>
                     ((True, Msg ''File moved successfully''), delete_one from_col file_id d')))"

text \<open>\<open>copy_file\<close>; the copy keeps the key.\<close>

definition copy_file ::
  "int \<Rightarrow> string \<Rightarrow> string \<Rightarrow> string \<Rightarrow> db \<Rightarrow> (bool \<times> string option \<times> message) \<times> db" where
  "copy_file now file_id from_collection to_collection d =
     (let from_col = get_collection_by_name from_collection;
          to_col = get_collection_by_name to_collection
      in case find_one from_col file_id d of
           None \<Rightarrow> ((False, None, Msg ''File not found''), d)
         | Some file \<Rightarrow>
             (let file_copy = file\<lparr>collection_type := to_collection, copied_date := Some now\<rparr>
              in case find_one to_col file_id d of
                   Some existing \<Rightarrow> ((False, None, Msg ''File already exists in target collection''), d)
                 | None \<Rightarrow>
                     (case insert_one to_col file_copy d of
                        Inr d' \<Rightarrow> ((True, Some file_id, Msg ''File copied successfully''), d')
                      | Inl e \<Rightarrow> ((False, None, Str e), d))))"

text \<open>\<open>get_file_details\<close>: the first hit over the collections in the order scanned.\<close>

fun first_hit :: "handle list \<Rightarrow> string \<Rightarrow> db \<Rightarrow> document option" where
  "first_hit [] query d = None"
| "first_hit (col # cols) query d =
     (case find_one col query d of Some file_details \<Rightarrow> Some file_details
      | None \<Rightarrow> first_hit cols query d)"

definition get_file_details :: "string \<Rightarrow> db \<Rightarrow> document option" where
  "get_file_details query d =
     (case first_hit [primary_collection, clouds_collection, archive_collection] query d of
        Some file_details \<Rightarrow> Some file_details
      | None \<Rightarrow>
          (if SECOND_FILES_DATABASE_URL d
           then first_hit [second_primary, second_clouds, second_archive] query d
           else None))"

text \<open>
  Modelled from the spec: findByKey, the lookup of a key in one partition, for which the
  source has no function of its own (\<open>get_file_details\<close> scans all collections). It
  scans the partition's primary store, then its overflow store if one is configured, and
  returns the first hit.
\<close>

definition find_in_partition :: "string \<Rightarrow> string \<Rightarrow> db \<Rightarrow> document option" where
  "find_in_partition collection_name k d =
     (case find_one (get_collection_by_name collection_name) k d of
        Some file \<Rightarrow> Some file
      | None \<Rightarrow>
          (if SECOND_FILES_DATABASE_URL d
           then (case second_col_get collection_name of
                   None \<Rightarrow> None | Some col \<Rightarrow> find_one col k d)
           else None))"

section \<open>Example stores\<close>

text \<open>Concrete documents and stores, on which the theorems are instantiated.\<close>

definition example_doc :: "string \<Rightarrow> string \<Rightarrow> string \<Rightarrow> document" where
  "example_doc k name col =
     \<lparr>doc_id = k, file_name = name, file_size = 1024, caption = [], collection_type = col,
      file_type = ''video/mp4'', added_date = 100, moved_date = None, copied_date = None,
      source_collection = None\<rparr>"

text \<open>The stores with no document, no capacity failure and no second database.\<close>

definition empty_db :: db where
  "empty_db = \<lparr>colls = (\<lambda>col. []), full = (\<lambda>col. False), SECOND_FILES_DATABASE_URL = False\<rparr>"

text \<open>A store with one file in primary and another key present both in primary and clouds.\<close>

definition example_db :: db where
  "example_db = empty_db\<lparr>colls := (\<lambda>col. [])
     (primary_collection := [example_doc ''k1'' ''my file 2024 mp4'' ''primary'',
                             example_doc ''k2'' ''other mkv'' ''primary''],
      clouds_collection := [example_doc ''k2'' ''other mkv'' ''clouds'',
                            example_doc ''k3'' ''third mkv'' ''clouds''])\<rparr>"

text \<open>A media object whose handle is the first of the example handles.\<close>

definition example_media :: "string media" where
  "example_media = \<lparr>media_file_id = ''session-1'', media_file_name = Some ''My_File.2024.mp4'',
     media_caption = None, media_file_size = 1024, mime_type = Some ''video/mp4''\<rparr>"

text \<open>
  The collection of the second database that \<open>save_file\<close> retries on:
  \<open>.get(collection_name, second_primary)\<close>.
\<close>

definition second_or_default :: "string \<Rightarrow> handle" where
  "second_or_default collection_name =
     (case second_col_get collection_name of None \<Rightarrow> second_primary | Some col \<Rightarrow> col)"


text \<open>The stores with one more document at the end of a collection.\<close>

definition with_doc :: "handle \<Rightarrow> document \<Rightarrow> db \<Rightarrow> db" where
  "with_doc col doc d = d\<lparr>colls := (colls d)(col := colls d col @ [doc])\<rparr>"

text \<open>The empty stores where the primary collection signals a capacity failure.\<close>

definition full_db :: db where
  "full_db = empty_db\<lparr>full := (\<lambda>col. col = primary_collection)\<rparr>"

text \<open>
  The empty stores with the second database configured, where the clouds collection
  signals a capacity failure, and those where its overflow collection does so as well.
\<close>

definition clouds_full_db :: db where
  "clouds_full_db = empty_db\<lparr>full := (\<lambda>col. col = clouds_collection), SECOND_FILES_DATABASE_URL := True\<rparr>"

definition overflow_full_db :: db where
  "overflow_full_db = empty_db\<lparr>full := (\<lambda>col. col = clouds_collection \<or> col = second_clouds),
     SECOND_FILES_DATABASE_URL := True\<rparr>"

section \<open>The search engine\<close>

text \<open>\<open>col.find(filter_query)\<close>: the matching documents of a collection, in its order.\<close>

definition find_matching :: "(document \<Rightarrow> bool) \<Rightarrow> handle \<Rightarrow> db \<Rightarrow> document list" where
  "find_matching flt col d = filter flt (colls d col)"

definition tag_source :: "string \<Rightarrow> document \<Rightarrow> document" where
  "tag_source collection_name doc = doc\<lparr>source_collection := Some collection_name\<rparr>"

text \<open>
  The truth value of a collection object, \<open>bool(col)\<close>, is a matter of the library
  and a parameter of the search: pymongo 4 raises \<open>NotImplementedError\<close> (collection
  objects do not implement truth value testing), and pymongo 3 gives \<open>True\<close>, as for
  any object without a length.
\<close>

definition pymongo4_bool :: "error + bool" where
  "pymongo4_bool = Inl NotImplementedError"

definition pymongo3_bool :: "error + bool" where
  "pymongo3_bool = Inr True"

text \<open>
  The search in one named collection: its matches, then, when the second database is
  configured, \<open>.get(collection_name)\<close> of its collections is tested for truth:
  \<open>None\<close>, for a name that is none of the three, is false; a collection object has
  the truth value \<open>Collection_bool\<close>, and when that is true its matches are added.
  All results are tagged with the name.
\<close>

definition search_one ::
  "error + bool \<Rightarrow> (document \<Rightarrow> bool) \<Rightarrow> string \<Rightarrow> db \<Rightarrow> error + document list" where
  "search_one Collection_bool flt collection_name d =
     (let results = find_matching flt (get_collection_by_name collection_name) d
      in if SECOND_FILES_DATABASE_URL d then
           (case second_col_get collection_name of
              None \<Rightarrow> Inr (map (tag_source collection_name) results)
            | Some second_col \<Rightarrow>
                (case Collection_bool of
                   Inl e \<Rightarrow> Inl e
                 | Inr b \<Rightarrow>
                     (if b then
                        Inr (map (tag_source collection_name) (results @ find_matching flt second_col d))
                      else Inr (map (tag_source collection_name) results))))
         else Inr (map (tag_source collection_name) results))"

text \<open>
  The search in all collections: the loop over the names, giving the accumulated
  results and the count of each name.
\<close>

fun search_all :: "(document \<Rightarrow> bool) \<Rightarrow> string list \<Rightarrow> db \<Rightarrow> document list \<times> (string \<times> nat) list" where
  "search_all flt [] d = ([], [])"
| "search_all flt (col_name # col_names) d =
     (let col_results = map (tag_source col_name) (find_matching flt (get_collection_by_name col_name) d);
          second_results =
            (if SECOND_FILES_DATABASE_URL d then
               (case second_col_get col_name of
                  None \<Rightarrow> []
                | Some second_col \<Rightarrow> map (tag_source col_name) (find_matching flt second_col d))
             else []);
          rest = search_all flt col_names d
      in (col_results @ second_results @ fst rest,
          (col_name, length col_results + length second_results) # snd rest))"

text \<open>Python's \<open>xs[i:]\<close> and \<open>xs[:j]\<close>, where a negative index counts from the end.\<close>

definition slice_from :: "'a list \<Rightarrow> int \<Rightarrow> 'a list" where
  "slice_from xs i = (if i < 0 then drop (nat (int (length xs) + i)) xs else drop (nat i) xs)"

definition slice_to :: "'a list \<Rightarrow> int \<Rightarrow> 'a list" where
  "slice_to xs j = (if j < 0 then take (nat (int (length xs) + j)) xs else take (nat j) xs)"

text \<open>\<open>sub in s\<close> on strings.\<close>

definition contains :: "string \<Rightarrow> string \<Rightarrow> bool" where
  "contains s sub = list_ex (\<lambda>i. take (length sub) (drop i s) = sub) [0..<Suc (length s)]"

text \<open>The truth value of an optional string: \<open>None\<close> and the empty string are false.\<close>

definition truthy :: "string option \<Rightarrow> bool" where
  "truthy x = (case x of None \<Rightarrow> False | Some s \<Rightarrow> s \<noteq> [])"

text \<open>
  The language filter and the pagination of \<open>get_search_results\<close>: the page, the next
  offset (\<open>None\<close> is the empty string of the source) and the total.
\<close>

definition filter_and_page ::
  "string option \<Rightarrow> int \<Rightarrow> int \<Rightarrow> document list \<Rightarrow> document list \<times> int option \<times> int" where
  "filter_and_page lang offset max_results results =
     (let (files, total_results) =
            (if truthy lang then
               (let lang_files = filter (\<lambda>f. contains (lower (file_name f)) (the lang)) results
                in (slice_to (slice_from lang_files offset) max_results, int (length lang_files)))
             else (slice_to (slice_from results offset) max_results, int (length results)));
          next_offset = offset + max_results
      in (files, (if next_offset \<ge> total_results then None else Some next_offset), total_results))"

text \<open>
  The body of \<open>get_search_results\<close> for a filter: the returned tuple, whose last
  component is the counts of the search in all collections, or the exception that
  leaves the function.
\<close>

definition search_with ::
  "error + bool \<Rightarrow> (document \<Rightarrow> bool) \<Rightarrow> string option \<Rightarrow> int \<Rightarrow> int \<Rightarrow> string option \<Rightarrow> db
     \<Rightarrow> error + document list \<times> int option \<times> int \<times> (string \<times> nat) list option" where
  "search_with Collection_bool flt collection_name max_results offset lang d =
     (if truthy collection_name then
        (case search_one Collection_bool flt (the collection_name) d of
           Inl e \<Rightarrow> Inl e
         | Inr results \<Rightarrow>
             (case filter_and_page lang offset max_results results of
                (files, next_offset, total_results) \<Rightarrow> Inr (files, next_offset, total_results, None)))
      else
        (case search_all flt [''primary'', ''clouds'', ''archive''] d of
           (results, counts) \<Rightarrow>
             (case filter_and_page lang offset max_results results of
                (files, next_offset, total_results) \<Rightarrow>
                  Inr (files, next_offset, total_results, Some counts))))"

text \<open>
  \<open>get_search_results\<close>, with the configuration \<open>USE_CAPTION_FILTER\<close> as a parameter;
  \<open>None\<close> for a query whose pattern is outside the modelled syntax.
\<close>

definition get_search_results ::
  "error + bool \<Rightarrow> bool \<Rightarrow> string \<Rightarrow> string option \<Rightarrow> int \<Rightarrow> int \<Rightarrow> string option \<Rightarrow> db
     \<Rightarrow> (error + document list \<times> int option \<times> int \<times> (string \<times> nat) list option) option" where
  "get_search_results Collection_bool USE_CAPTION_FILTER query collection_name max_results offset lang d =
     map_option (\<lambda>regex. search_with Collection_bool (filter_query USE_CAPTION_FILTER regex) collection_name
                   max_results offset lang d)
       (compile_query (strip query))"

text \<open>The results of a search before the language filter and the pagination.\<close>

definition merged_results ::
  "error + bool \<Rightarrow> (document \<Rightarrow> bool) \<Rightarrow> string option \<Rightarrow> db \<Rightarrow> error + document list" where
  "merged_results Collection_bool flt collection_name d =
     (if truthy collection_name then search_one Collection_bool flt (the collection_name) d
      else Inr (fst (search_all flt [''primary'', ''clouds'', ''archive''] d)))"

text \<open>The documents that the language filter keeps.\<close>

definition language_filter :: "string option \<Rightarrow> document list \<Rightarrow> document list" where
  "language_filter lang results =
     (if truthy lang then filter (\<lambda>f. contains (lower (file_name f)) (the lang)) results else results)"

text \<open>Seven documents that match a search for "film".\<close>

definition seven_docs :: "document list" where
  "seven_docs = map (\<lambda>k. example_doc k (''film hindi part '' @ k) ''primary'')
     [''1'', ''2'', ''3'', ''4'', ''5'', ''6'', ''7'']"

definition seven_db :: db where
  "seven_db = empty_db\<lparr>colls := (\<lambda>col. [])(primary_collection := seven_docs)\<rparr>"

text \<open>
  The loop of \<open>bulk_move_files\<close> over the files found, each with the reading of
  \<open>datetime.now()\<close> of its turn. A \<open>DuplicateKeyError\<close> skips the file; any other
  error of the insert leaves the function, with the stores as they are by then.
\<close>

fun bulk_move_loop ::
  "handle \<Rightarrow> handle \<Rightarrow> string \<Rightarrow> (int \<times> document) list \<Rightarrow> nat \<Rightarrow> db \<Rightarrow> (error + nat) \<times> db" where
  "bulk_move_loop from_col to_col to_collection [] moved_count d = (Inr moved_count, d)"
| "bulk_move_loop from_col to_col to_collection ((now, f) # files) moved_count d =
     (case insert_one to_col (f\<lparr>collection_type := to_collection, moved_date := Some now\<rparr>) d of
        Inr d' \<Rightarrow>
          bulk_move_loop from_col to_col to_collection files (moved_count + 1)
            (delete_one from_col (doc_id f) d')
      | Inl DuplicateKeyError \<Rightarrow> bulk_move_loop from_col to_col to_collection files moved_count d
      | Inl e \<Rightarrow> (Inl e, d))"

text \<open>
  The body of \<open>bulk_move_files\<close> for a filter: the matching files are listed first,
  then moved one by one; \<open>clock i\<close> is the time at the \<open>i\<close>-th of them.
\<close>

definition bulk_move_with ::
  "(document \<Rightarrow> bool) \<Rightarrow> (nat \<Rightarrow> int) \<Rightarrow> string \<Rightarrow> string \<Rightarrow> db \<Rightarrow> (error + nat) \<times> db" where
  "bulk_move_with flt clock from_collection to_collection d =
     (let from_col = get_collection_by_name from_collection;
          to_col = get_collection_by_name to_collection;
          files = find_matching flt from_col d
      in bulk_move_loop from_col to_col to_collection
           (zip (map clock [0..<length files]) files) 0 d)"

text \<open>
  \<open>bulk_move_files\<close>, whose filter is \<open>{'file_name': regex}\<close>; \<open>None\<close> for a
  query whose pattern is outside the modelled syntax.
\<close>

definition bulk_move_files ::
  "(nat \<Rightarrow> int) \<Rightarrow> string \<Rightarrow> string \<Rightarrow> string \<Rightarrow> db \<Rightarrow> ((error + nat) \<times> db) option" where
  "bulk_move_files clock query from_collection to_collection d =
     map_option (\<lambda>regex. bulk_move_with (filter_query False regex) clock
                   from_collection to_collection d)
       (compile_query (strip query))"

text \<open>Three files in primary match "cat"; the key of the second is also in clouds.\<close>

definition cats_db :: db where
  "cats_db = empty_db\<lparr>colls := (\<lambda>col. [])
     (primary_collection := [example_doc ''a'' ''big cat one'' ''primary'',
                             example_doc ''b'' ''big cat two'' ''primary'',
                             example_doc ''c'' ''big cat three'' ''primary'',
                             example_doc ''d'' ''a dog'' ''primary''],
      clouds_collection := [example_doc ''b'' ''big cat two'' ''clouds''])\<rparr>"

section \<open>Properties\<close>

subsection \<open>The codec is injective\<close>

lemma length_le_bytes: "length (le_bytes n x) = n"
  by (induction n arbitrary: x) auto

lemma le_bytes_bound: "b \<in> set (le_bytes n x) \<Longrightarrow> b < 256"
  by (induction n arbitrary: x) (auto simp: nat_less_iff)

lemma encode_loop_acc:
  "encode_loop s r n = (case encode_loop s [] n of Inl e \<Rightarrow> Inl e | Inr out \<Rightarrow> Inr (r @ out))"
proof (induction s arbitrary: r n)
  case Nil
  then show ?case by simp
next
  case (Cons i s)
  show ?case
    using Cons.IH [of "r @ [0, n] @ [i]" 0] Cons.IH [of "r @ [i]" 0] Cons.IH [of r "n + 1"]
      Cons.IH [of "[0, n] @ [i]" 0] Cons.IH [of "[i]" 0]
    by (auto split: sum.splits)
qed

lemma encode_loop_total: "n + length s \<le> 255 \<Longrightarrow> \<exists>out. encode_loop s r n = Inr out"
  by (induction s arbitrary: r n) auto

lemma expand_runs_nonzero: "b \<noteq> 0 \<Longrightarrow> expand_runs (b # r) = b # expand_runs r"
  by (cases r) auto

lemma encode_loop_expand:
  "s \<noteq> [] \<Longrightarrow> last s \<noteq> 0 \<Longrightarrow> encode_loop s [] n = Inr out \<Longrightarrow> expand_runs out = replicate n 0 @ s"
proof (induction s arbitrary: n out)
  case Nil
  then show ?case by simp
next
  case (Cons i s)
  show ?case
  proof (cases "s = []")
    case True
    with Cons.prems show ?thesis
      by (auto split: if_splits simp: expand_runs_nonzero)
  next
    case False
    with Cons.prems have l: "last s \<noteq> 0" by simp
    show ?thesis
    proof (cases "i = 0")
      case True
      with Cons.prems have "encode_loop s [] (n + 1) = Inr out" by simp
      from Cons.IH [OF False l this] True show ?thesis
        by (simp add: replicate_app_Cons_same)
    next
      case nz: False
      show ?thesis
      proof (cases "n = 0")
        case True
        with nz Cons.prems have "encode_loop s [i] 0 = Inr out" by simp
        then obtain out' where o: "encode_loop s [] 0 = Inr out'" "out = i # out'"
          by (subst (asm) encode_loop_acc) (auto split: sum.splits)
        from Cons.IH [OF False l o(1)] o(2) nz True show ?thesis
          by (simp add: expand_runs_nonzero)
      next
        case False
        with nz Cons.prems have "encode_loop s [0, n, i] 0 = Inr out"
          by (simp split: if_splits)
        then obtain out' where o: "encode_loop s [] 0 = Inr out'" "out = 0 # n # i # out'"
          by (subst (asm) encode_loop_acc) (auto split: sum.splits)
        from Cons.IH [OF \<open>s \<noteq> []\<close> l o(1)] o(2) nz show ?thesis
          by (simp add: expand_runs_nonzero)
      qed
    qed
  qed
qed

lemma encode_loop_bound:
  "encode_loop s r n = Inr out \<Longrightarrow> \<forall>b\<in>set s. b < 256 \<Longrightarrow> \<forall>b\<in>set r. b < 256 \<Longrightarrow> b \<in> set out \<Longrightarrow> b < 256"
  by (induction s r n rule: encode_loop.induct) (auto split: if_splits)

lemma le_bytes_mod: "le_bytes n x = le_bytes n y \<Longrightarrow> x mod 256 ^ n = y mod 256 ^ n"
proof (induction n arbitrary: x y)
  case 0
  then show ?case by simp
next
  case (Suc n)
  from Suc.prems have hd: "x mod 256 = y mod 256" and tl: "le_bytes n (x div 256) = le_bytes n (y div 256)"
    by (auto simp: nat_eq_iff)
  from Suc.IH [OF tl] have ih: "x div 256 mod 256 ^ n = y div 256 mod 256 ^ n" .
  have "x mod (256 * 256 ^ n) = 256 * (x div 256 mod 256 ^ n) + x mod 256"
    by (rule zmod_zmult2_eq) simp
  moreover have "y mod (256 * 256 ^ n) = 256 * (y div 256 mod 256 ^ n) + y mod 256"
    by (rule zmod_zmult2_eq) simp
  ultimately show ?case
    using hd ih by simp
qed

lemma pow256: "0 < n \<Longrightarrow> (256::int) ^ n = 2 * 2 ^ (8 * n - 1)"
proof -
  assume n: "0 < n"
  have "(256::int) ^ n = (2 ^ 8) ^ n" by simp
  also have "\<dots> = 2 ^ (8 * n)" by (simp only: power_mult)
  also from n have "8 * n = Suc (8 * n - 1)" by simp
  also have "(2::int) ^ Suc (8 * n - 1) = 2 * 2 ^ (8 * n - 1)" by (rule power_Suc)
  finally show ?thesis .
qed

lemma signed_mod_inj:
  assumes "- (2 ^ k) \<le> x" "x < 2 ^ k" "- (2 ^ k) \<le> y" "y < 2 ^ k" "x mod (2 * 2 ^ k) = y mod (2 * 2 ^ k)"
  shows "x = (y::int)"
proof -
  have d: "(2 * 2 ^ k) dvd (x - y)"
    using assms(5) by (simp add: mod_eq_dvd_iff)
  have b: "\<bar>x - y\<bar> < 2 * 2 ^ k"
    using assms(1-4) by linarith
  show ?thesis
  proof (rule ccontr)
    assume "x \<noteq> y"
    then have "0 < \<bar>x - y\<bar>" by simp
    from zdvd_not_zless [OF this b] d show False by simp
  qed
qed

lemma index_of_nth: "distinct xs \<Longrightarrow> k < length xs \<Longrightarrow> index_of (xs ! k) xs = k"
proof (induction xs arbitrary: k)
  case Nil
  then show ?case by simp
next
  case (Cons x xs)
  then show ?case by (cases k) auto
qed

lemma distinct_b64_alphabet: "distinct b64_alphabet"
  by (simp add: b64_alphabet_def)

lemma length_b64_alphabet: "length b64_alphabet = 64"
  by (simp add: b64_alphabet_def)

lemma b64_index_char: "k < 64 \<Longrightarrow> b64_index (b64_char k) = k"
  by (simp add: b64_index_def b64_char_def index_of_nth distinct_b64_alphabet length_b64_alphabet)

lemma b64_char_not_pad: "k < 64 \<Longrightarrow> b64_char k \<noteq> CHR ''=''"
proof -
  assume "k < 64"
  then have "b64_char k \<in> set b64_alphabet"
    by (simp add: b64_char_def length_b64_alphabet)
  moreover have "CHR ''='' \<notin> set b64_alphabet"
    by (simp add: b64_alphabet_def)
  ultimately show ?thesis by auto
qed

lemma rstrip_eq_Nil: "rstrip_eq [] = []"
  by (simp add: rstrip_eq_def)

lemma rstrip_eq_pad: "rstrip_eq (CHR ''='' # s) = (if rstrip_eq s = [] then [] else CHR ''='' # rstrip_eq s)"
  by (auto simp: rstrip_eq_def dropWhile_append)

lemma rstrip_eq_Cons: "c \<noteq> CHR ''='' \<Longrightarrow> rstrip_eq (c # s) = c # rstrip_eq s"
  by (auto simp: rstrip_eq_def dropWhile_append)

lemma b64_roundtrip:
  "\<forall>b\<in>set s. b < 256 \<Longrightarrow> b64decode_unpadded (rstrip_eq (urlsafe_b64encode s)) = s"
proof (induction s rule: urlsafe_b64encode.induct)
  case 1
  then show ?case by (simp add: rstrip_eq_Nil)
next
  case (2 a)
  then have a: "a < 256" by simp
  then have k: "a div 4 < 64" "(a mod 4) * 16 < 64" by auto
  show ?case
    using k a by (simp add: rstrip_eq_Cons rstrip_eq_pad rstrip_eq_Nil b64_char_not_pad b64_index_char)
next
  case (3 a b)
  then have a: "a < 256" "b < 256" by simp_all
  then have k: "a div 4 < 64" "(a mod 4) * 16 + b div 16 < 64" "(b mod 16) * 4 < 64" by auto
  show ?case
    using k a by (simp add: rstrip_eq_Cons rstrip_eq_pad rstrip_eq_Nil b64_char_not_pad b64_index_char)
next
  case (4 a b c s)
  then have a: "a < 256" "b < 256" "c < 256" by simp_all
  then have k: "a div 4 < 64" "(a mod 4) * 16 + b div 16 < 64" "(b mod 16) * 4 + c div 64 < 64" "c mod 64 < 64" by auto
  have ih: "b64decode_unpadded (rstrip_eq (urlsafe_b64encode s)) = s"
    using 4 by simp
  show ?case
    using k a ih by (simp add: rstrip_eq_Cons b64_char_not_pad b64_index_char)
qed


lemma le_bytes_inj:
  assumes "in_signed_range (8 * n) x" "in_signed_range (8 * n) y" "0 < n"
    and "le_bytes n x = le_bytes n y"
  shows "x = y"
proof -
  from le_bytes_mod [OF assms(4)]
  have m: "x mod (2 * 2 ^ (8 * n - 1)) = y mod (2 * 2 ^ (8 * n - 1))"
    by (simp only: pow256 [OF assms(3)])
  from assms(1) have x: "- (2 ^ (8 * n - 1)) \<le> x" "x < 2 ^ (8 * n - 1)"
    unfolding in_signed_range_def by blast+
  from assms(2) have y: "- (2 ^ (8 * n - 1)) \<le> y" "y < 2 ^ (8 * n - 1)"
    unfolding in_signed_range_def by blast+
  show ?thesis
    by (rule signed_mod_inj [OF x y m])
qed

lemma le_bytes_inj_32:
  assumes "in_signed_range 32 x" "in_signed_range 32 y" "le_bytes 4 x = le_bytes 4 y"
  shows "x = y"
proof -
  have e: "(32::nat) = 8 * 4" by simp
  show ?thesis
    by (rule le_bytes_inj [of 4]) (use assms in \<open>simp_all only: e [symmetric] zero_less_numeral\<close>)
qed

lemma le_bytes_inj_64:
  assumes "in_signed_range 64 x" "in_signed_range 64 y" "le_bytes 8 x = le_bytes 8 y"
  shows "x = y"
proof -
  have e: "(64::nat) = 8 * 8" by simp
  show ?thesis
    by (rule le_bytes_inj [of 8]) (use assms in \<open>simp_all only: e [symmetric] zero_less_numeral\<close>)
qed

lemma pack_iiqq_Inr:
  "pack_iiqq a b c d = Inr s \<longleftrightarrow>
     in_signed_range 32 a \<and> in_signed_range 32 b \<and> in_signed_range 64 c \<and> in_signed_range 64 d \<and>
     s = le_bytes 4 a @ le_bytes 4 b @ le_bytes 8 c @ le_bytes 8 d"
  unfolding pack_iiqq_def by auto

lemma pack_iiqq_inj:
  assumes "pack_iiqq a b c d = Inr s" "pack_iiqq a' b' c' d' = Inr s"
  shows "a = a' \<and> b = b' \<and> c = c' \<and> d = d'"
proof -
  from assms(1) have r: "in_signed_range 32 a" "in_signed_range 32 b" "in_signed_range 64 c" "in_signed_range 64 d"
    and s: "s = le_bytes 4 a @ le_bytes 4 b @ le_bytes 8 c @ le_bytes 8 d"
    unfolding pack_iiqq_Inr by blast+
  from assms(2) have r': "in_signed_range 32 a'" "in_signed_range 32 b'" "in_signed_range 64 c'" "in_signed_range 64 d'"
    and s': "s = le_bytes 4 a' @ le_bytes 4 b' @ le_bytes 8 c' @ le_bytes 8 d'"
    unfolding pack_iiqq_Inr by blast+
  from s s' have "le_bytes 4 a @ le_bytes 4 b @ le_bytes 8 c @ le_bytes 8 d
      = le_bytes 4 a' @ le_bytes 4 b' @ le_bytes 8 c' @ le_bytes 8 d'"
    by simp
  then have e: "le_bytes 4 a = le_bytes 4 a' \<and> le_bytes 4 b = le_bytes 4 b' \<and>
    le_bytes 8 c = le_bytes 8 c' \<and> le_bytes 8 d = le_bytes 8 d'"
    by (simp add: length_le_bytes)
  show ?thesis
    using le_bytes_inj_32 [OF r(1) r'(1)] le_bytes_inj_32 [OF r(2) r'(2)]
      le_bytes_inj_64 [OF r(3) r'(3)] le_bytes_inj_64 [OF r(4) r'(4)] e
    by blast
qed

lemma pack_iiqq_bytes:
  "pack_iiqq a b c d = Inr s \<Longrightarrow> length s = 24 \<and> (\<forall>x\<in>set s. x < 256)"
  unfolding pack_iiqq_Inr by (auto simp: length_le_bytes dest: le_bytes_bound)

lemma encode_file_id_decode:
  assumes "\<forall>b\<in>set s. b < 256" "length s \<le> 253"
  shows "\<exists>k. encode_file_id s = Inr k \<and> expand_runs (b64decode_unpadded k) = s @ [22, 4]"
proof -
  from assms(2) have "0 + length (s @ [22] @ [4]) \<le> 255" by simp
  from encode_loop_total [OF this] obtain out where out: "encode_loop (s @ [22] @ [4]) [] 0 = Inr out"
    by blast
  have "expand_runs out = replicate 0 0 @ (s @ [22] @ [4])"
    by (rule encode_loop_expand [OF _ _ out]) simp_all
  then have e: "expand_runs out = s @ [22, 4]" by simp
  have "\<forall>b\<in>set out. b < 256"
    using encode_loop_bound [OF out] assms(1) by auto
  then have "b64decode_unpadded (rstrip_eq (urlsafe_b64encode out)) = out"
    by (rule b64_roundtrip)
  with out e show ?thesis
    by (simp add: encode_file_id_def)
qed

text \<open>
  C1: for two handles that decode to fields of the platform's widths, the derived keys
  exist, and they are equal if and only if the four decoded fields (type, shard, media
  id, access token) are equal, whatever else the handles carry.
\<close>

theorem unpack_new_file_id_injective:
  assumes "FileId_decode h1 = Some d1" and "FileId_decode h2 = Some d2"
    and "fields_fit d1" and "fields_fit d2"
  shows "(\<exists>k. unpack_new_file_id FileId_decode h1 = Inr k) \<and>
         (\<exists>k. unpack_new_file_id FileId_decode h2 = Inr k) \<and>
         (unpack_new_file_id FileId_decode h1 = unpack_new_file_id FileId_decode h2 \<longleftrightarrow>
            file_id_type d1 = file_id_type d2 \<and> dc_id d1 = dc_id d2 \<and>
            media_id d1 = media_id d2 \<and> access_hash d1 = access_hash d2)"
proof -
  obtain s1 where s1: "pack_iiqq (file_id_type d1) (dc_id d1) (media_id d1) (access_hash d1) = Inr s1"
    using assms(3) unfolding pack_iiqq_Inr fields_fit_def by blast
  obtain s2 where s2: "pack_iiqq (file_id_type d2) (dc_id d2) (media_id d2) (access_hash d2) = Inr s2"
    using assms(4) unfolding pack_iiqq_Inr fields_fit_def by blast
  from pack_iiqq_bytes [OF s1] obtain k1 where
    k1: "encode_file_id s1 = Inr k1" "expand_runs (b64decode_unpadded k1) = s1 @ [22, 4]"
    using encode_file_id_decode [of s1] by auto
  from pack_iiqq_bytes [OF s2] obtain k2 where
    k2: "encode_file_id s2 = Inr k2" "expand_runs (b64decode_unpadded k2) = s2 @ [22, 4]"
    using encode_file_id_decode [of s2] by auto
  have u1: "unpack_new_file_id FileId_decode h1 = Inr k1"
    using assms(1) s1 k1(1) by (simp add: unpack_new_file_id_def)
  have u2: "unpack_new_file_id FileId_decode h2 = Inr k2"
    using assms(2) s2 k2(1) by (simp add: unpack_new_file_id_def)
  have "k1 = k2 \<longleftrightarrow> s1 = s2"
  proof
    assume "k1 = k2"
    with k1(2) k2(2) show "s1 = s2" by simp
  next
    assume "s1 = s2"
    with k1(1) k2(1) show "k1 = k2" by simp
  qed
  moreover have "s1 = s2 \<longleftrightarrow> file_id_type d1 = file_id_type d2 \<and> dc_id d1 = dc_id d2 \<and>
            media_id d1 = media_id d2 \<and> access_hash d1 = access_hash d2"
  proof
    assume "s1 = s2"
    with s1 s2 show "file_id_type d1 = file_id_type d2 \<and> dc_id d1 = dc_id d2 \<and>
            media_id d1 = media_id d2 \<and> access_hash d1 = access_hash d2"
      using pack_iiqq_inj by blast
  next
    assume "file_id_type d1 = file_id_type d2 \<and> dc_id d1 = dc_id d2 \<and>
            media_id d1 = media_id d2 \<and> access_hash d1 = access_hash d2"
    with s1 s2 show "s1 = s2" by simp
  qed
  ultimately show ?thesis
    using u1 u2 by simp
qed

theorem unpack_new_file_id_injective_witness:
  "unpack_new_file_id example_decode ''session-1'' = Inr ''BQADBAADed8NhkhwAALzrwfPu338_xYE'' \<and>
   unpack_new_file_id example_decode ''session-1'' = unpack_new_file_id example_decode ''session-2'' \<and>
   unpack_new_file_id example_decode ''session-1'' \<noteq> unpack_new_file_id example_decode ''other-file''"
proof -
  let ?d1 = "FileId.extend \<lparr>file_id_type = 5, dc_id = 4, media_id = 123456789012345,
                access_hash = - 987654321098765\<rparr> [1, 2, 3::nat]"
  let ?d2 = "FileId.extend \<lparr>file_id_type = 5, dc_id = 4, media_id = 123456789012345,
                access_hash = - 987654321098765\<rparr> [9, 9::nat]"
  let ?d3 = "FileId.extend \<lparr>file_id_type = 5, dc_id = 4, media_id = 123456789012346,
                access_hash = - 987654321098765\<rparr> [1, 2, 3::nat]"
  have h1: "example_decode ''session-1'' = Some ?d1"
    by (simp add: example_decode_def)
  have h2: "example_decode ''session-2'' = Some ?d2"
    by (simp add: example_decode_def)
  have h3: "example_decode ''other-file'' = Some ?d3"
    by (simp add: example_decode_def)
  have f1: "fields_fit ?d1"
    by (simp add: fields_fit_def in_signed_range_def FileId.defs)
  have f2: "fields_fit ?d2"
    by (simp add: fields_fit_def in_signed_range_def FileId.defs)
  have f3: "fields_fit ?d3"
    by (simp add: fields_fit_def in_signed_range_def FileId.defs)
  have e: "unpack_new_file_id example_decode ''session-1'' = Inr ''BQADBAADed8NhkhwAALzrwfPu338_xYE''"
    by code_simp
  from unpack_new_file_id_injective [of example_decode "''session-1''" _ "''session-2''", OF h1 h2 f1 f2]
  have a: "unpack_new_file_id example_decode ''session-1'' = unpack_new_file_id example_decode ''session-2''"
    by (simp add: FileId.defs)
  from unpack_new_file_id_injective [of example_decode "''session-1''" _ "''other-file''", OF h1 h3 f1 f3]
  have b: "unpack_new_file_id example_decode ''session-1'' \<noteq> unpack_new_file_id example_decode ''other-file''"
    by (simp add: FileId.defs)
  from e a b show ?thesis by simp
qed

subsection \<open>The reorganizer\<close>

lemma find_one_SomeD: "find_one col k d = Some x \<Longrightarrow> doc_id x = k \<and> x \<in> set (colls d col)"
  by (auto simp: find_one_def find_Some_iff)

lemma find_snoc:
  "find P (xs @ [x]) = (case find P xs of Some y \<Rightarrow> Some y | None \<Rightarrow> if P x then Some x else None)"
  by (induction xs) auto

lemma insert_one_Inr:
  "insert_one col doc d = Inr d' \<longleftrightarrow>
     \<not> full d col \<and> find_one col (doc_id doc) d = None \<and>
     d' = d\<lparr>colls := (colls d)(col := colls d col @ [doc])\<rparr>"
  by (auto simp: insert_one_def)

lemma insert_one_Inl:
  "insert_one col doc d = Inl e \<longleftrightarrow>
     (full d col \<and> e = OperationFailure) \<or>
     (\<not> full d col \<and> find_one col (doc_id doc) d \<noteq> None \<and> e = DuplicateKeyError)"
  by (auto simp: insert_one_def)

lemma find_one_inserted:
  "insert_one col doc d = Inr d' \<Longrightarrow> find_one col (doc_id doc) d' = Some doc"
  by (auto simp: insert_one_Inr find_one_def find_snoc)

lemma find_one_insert_other_col:
  "insert_one col doc d = Inr d' \<Longrightarrow> col' \<noteq> col \<Longrightarrow> find_one col' k d' = find_one col' k d"
  by (auto simp: insert_one_Inr find_one_def)

lemma find_one_delete_other_col:
  "col' \<noteq> col \<Longrightarrow> find_one col' k' (delete_one col k d) = find_one col' k' d"
  by (simp add: find_one_def delete_one_def)

lemma find_remove_first: "find P (remove_first P xs) = None \<or> find P xs \<noteq> None"
  by (induction xs) auto

text \<open>
  C10: when the insert into the destination fails during a move, and in particular when
  the destination already holds the key, \<open>move_file\<close> returns \<open>False\<close> with the
  message of the error, and the stores are as before, so the source still holds its
  record: the delete is executed only after an insert that succeeded.
\<close>

theorem move_file_insert_fails:
  assumes "find_one (get_collection_by_name from_collection) file_id d = Some file"
  shows "(\<forall>e. insert_one (get_collection_by_name to_collection)
                (file\<lparr>collection_type := to_collection, moved_date := Some now\<rparr>) d = Inl e \<longrightarrow>
              move_file now file_id from_collection to_collection d = ((False, Str e), d)) \<and>
         (find_one (get_collection_by_name to_collection) file_id d \<noteq> None \<longrightarrow>
            (\<exists>e. move_file now file_id from_collection to_collection d = ((False, Str e), d))) \<and>
         (\<not> fst (fst (move_file now file_id from_collection to_collection d)) \<longrightarrow>
            snd (move_file now file_id from_collection to_collection d) = d \<and>
            find_one (get_collection_by_name from_collection) file_id
              (snd (move_file now file_id from_collection to_collection d)) = Some file) \<and>
         (fst (fst (move_file now file_id from_collection to_collection d)) \<longleftrightarrow>
            (\<exists>d1. insert_one (get_collection_by_name to_collection)
                (file\<lparr>collection_type := to_collection, moved_date := Some now\<rparr>) d = Inr d1))"
proof -
  let ?file' = "file\<lparr>collection_type := to_collection, moved_date := Some now\<rparr>"
  let ?to = "get_collection_by_name to_collection"
  from assms have k: "doc_id ?file' = file_id"
    by (simp add: find_one_SomeD)
  have a: "\<forall>e. insert_one ?to ?file' d = Inl e \<longrightarrow>
      move_file now file_id from_collection to_collection d = ((False, Str e), d)"
    using assms by (simp add: move_file_def)
  have b: "find_one ?to file_id d \<noteq> None \<longrightarrow> (\<exists>e. insert_one ?to ?file' d = Inl e)"
    using k by (auto simp: insert_one_def)
  have c: "(\<exists>d1. insert_one ?to ?file' d = Inr d1) \<or> (\<exists>e. insert_one ?to ?file' d = Inl e)"
    by (cases "insert_one ?to ?file' d") auto
  have s: "\<forall>d1. insert_one ?to ?file' d = Inr d1 \<longrightarrow>
      fst (fst (move_file now file_id from_collection to_collection d))"
    using assms by (simp add: move_file_def)
  show ?thesis
    using a b c s assms by (auto simp: move_file_def)
qed

theorem move_file_insert_fails_witness:
  "move_file 7 ''k2'' ''primary'' ''clouds'' example_db = ((False, Str DuplicateKeyError), example_db)"
proof -
  have f: "find_one (get_collection_by_name ''primary'') ''k2'' example_db
      = Some (example_doc ''k2'' ''other mkv'' ''primary'')"
    by (simp add: find_one_def get_collection_by_name_def example_db_def example_doc_def empty_db_def)
  have i: "insert_one (get_collection_by_name ''clouds'')
      ((example_doc ''k2'' ''other mkv'' ''primary'')\<lparr>collection_type := ''clouds'', moved_date := Some 7\<rparr>)
      example_db = Inl DuplicateKeyError"
    by (simp add: insert_one_def find_one_def get_collection_by_name_def example_db_def example_doc_def empty_db_def)
  from move_file_insert_fails [OF f, of "''clouds''" 7] i show ?thesis
    by blast
qed

lemma get_collection_by_name_cases:
  "get_collection_by_name name = primary_collection \<or>
   get_collection_by_name name = clouds_collection \<or>
   get_collection_by_name name = archive_collection"
  by (simp add: get_collection_by_name_def)

lemma get_file_details_only_hit:
  assumes "find_one (get_collection_by_name name) k d = Some x"
    and "\<forall>col. col \<noteq> get_collection_by_name name \<longrightarrow> find_one col k d = None"
  shows "get_file_details k d = Some x"
  using get_collection_by_name_cases [of name] assms
  by (auto simp: get_file_details_def)

lemma find_remove_first_other:
  "k' \<noteq> k \<Longrightarrow> find (\<lambda>x. doc_id x = k') (remove_first (\<lambda>x. doc_id x = k) xs) = find (\<lambda>x. doc_id x = k') xs"
  by (induction xs) auto

lemma find_remove_first_distinct:
  "distinct (map doc_id xs) \<Longrightarrow> find (\<lambda>x. doc_id x = k) (remove_first (\<lambda>x. doc_id x = k) xs) = None"
proof (induction xs)
  case Nil
  then show ?case by simp
next
  case (Cons x xs)
  show ?case
  proof (cases "doc_id x = k")
    case True
    with Cons.prems have "k \<notin> doc_id ` set xs" by auto
    then have "find (\<lambda>y. doc_id y = k) xs = None"
      by (auto simp: find_None_iff)
    with True show ?thesis by simp
  next
    case False
    with Cons show ?thesis by simp
  qed
qed

lemma filter_remove_first:
  "find p xs \<noteq> None \<Longrightarrow> length (filter p (remove_first p xs)) + 1 = length (filter p xs)"
  by (induction xs) auto

lemma get_file_details_some_hit:
  assumes "find_one (get_collection_by_name name) k d = Some x"
  shows "\<exists>y. get_file_details k d = Some y \<and> doc_id y = k"
proof -
  have "get_file_details k d \<noteq> None"
    using get_collection_by_name_cases [of name] assms
    by (auto simp: get_file_details_def split: option.splits)
  then obtain y where y: "get_file_details k d = Some y" by blast
  then have "\<exists>col. find_one col k d = Some y"
    by (auto simp: get_file_details_def split: option.splits if_splits)
  then have "doc_id y = k" by (auto dest: find_one_SomeD)
  with y show ?thesis by blast
qed

text \<open>
  C7: a successful move first writes the record to the destination, with
  \<open>collection_type\<close> set to the destination, \<open>moved_date\<close> stamped and the key
  unchanged, while the source still holds it, and then deletes it from the source.
  Afterwards the destination holds its former documents and the written record at the
  end, the source has lost the first document with the key, which is its only one when
  the keys of the source are unique, and every other collection is as before. The
  lookup of the key in the destination returns the written record; so does
  \<open>get_file_details\<close> when before the move no collection other than the source held
  the key, and in any case it returns a record with the key.
\<close>

theorem move_file_success:
  assumes "fst (fst (move_file now file_id from_collection to_collection d))"
  shows "\<exists>file d1.
      find_one (get_collection_by_name from_collection) file_id d = Some file \<and>
      insert_one (get_collection_by_name to_collection)
        (file\<lparr>collection_type := to_collection, moved_date := Some now\<rparr>) d = Inr d1 \<and>
      find_one (get_collection_by_name to_collection) file_id d1
        = Some (file\<lparr>collection_type := to_collection, moved_date := Some now\<rparr>) \<and>
      find_one (get_collection_by_name from_collection) file_id d1 = Some file \<and>
      move_file now file_id from_collection to_collection d
        = ((True, Msg ''File moved successfully''), delete_one (get_collection_by_name from_collection) file_id d1) \<and>
      colls (snd (move_file now file_id from_collection to_collection d)) (get_collection_by_name to_collection)
        = colls d (get_collection_by_name to_collection)
            @ [file\<lparr>collection_type := to_collection, moved_date := Some now\<rparr>] \<and>
      colls (snd (move_file now file_id from_collection to_collection d)) (get_collection_by_name from_collection)
        = remove_first (\<lambda>x. doc_id x = file_id) (colls d (get_collection_by_name from_collection)) \<and>
      (\<forall>col. col \<noteq> get_collection_by_name to_collection \<and> col \<noteq> get_collection_by_name from_collection \<longrightarrow>
         colls (snd (move_file now file_id from_collection to_collection d)) col = colls d col) \<and>
      length (filter (\<lambda>x. doc_id x = file_id)
          (colls (snd (move_file now file_id from_collection to_collection d))
             (get_collection_by_name from_collection))) + 1
        = length (filter (\<lambda>x. doc_id x = file_id) (colls d (get_collection_by_name from_collection))) \<and>
      (distinct (map doc_id (colls d (get_collection_by_name from_collection))) \<longrightarrow>
         find_one (get_collection_by_name from_collection) file_id
           (snd (move_file now file_id from_collection to_collection d)) = None) \<and>
      find_one (get_collection_by_name to_collection) file_id
          (snd (move_file now file_id from_collection to_collection d))
        = Some (file\<lparr>collection_type := to_collection, moved_date := Some now\<rparr>) \<and>
      find_in_partition to_collection file_id (snd (move_file now file_id from_collection to_collection d))
        = Some (file\<lparr>collection_type := to_collection, moved_date := Some now\<rparr>) \<and>
      (\<exists>y. get_file_details file_id (snd (move_file now file_id from_collection to_collection d)) = Some y \<and>
         doc_id y = file_id) \<and>
      (distinct (map doc_id (colls d (get_collection_by_name from_collection))) \<and>
       (\<forall>col. col \<noteq> get_collection_by_name from_collection \<longrightarrow> find_one col file_id d = None) \<longrightarrow>
        get_file_details file_id (snd (move_file now file_id from_collection to_collection d))
          = Some (file\<lparr>collection_type := to_collection, moved_date := Some now\<rparr>)) \<and>
      doc_id (file\<lparr>collection_type := to_collection, moved_date := Some now\<rparr>) = file_id \<and>
      collection_type (file\<lparr>collection_type := to_collection, moved_date := Some now\<rparr>) = to_collection \<and>
      moved_date (file\<lparr>collection_type := to_collection, moved_date := Some now\<rparr>) = Some now"
proof -
  let ?from = "get_collection_by_name from_collection"
  let ?to = "get_collection_by_name to_collection"
  let ?p = "\<lambda>x. doc_id x = file_id"
  from assms obtain f where f: "find_one ?from file_id d = Some f"
    by (cases "find_one ?from file_id d") (auto simp: move_file_def)
  let ?file' = "f\<lparr>collection_type := to_collection, moved_date := Some now\<rparr>"
  from f have k: "doc_id ?file' = file_id"
    by (simp add: find_one_SomeD)
  from assms f obtain d1 where d1: "insert_one ?to ?file' d = Inr d1"
    by (cases "insert_one ?to ?file' d") (auto simp: move_file_def)
  let ?d' = "delete_one ?from file_id d1"
  have m: "move_file now file_id from_collection to_collection d
      = ((True, Msg ''File moved successfully''), ?d')"
    using f d1 by (simp add: move_file_def)
  then have sm: "snd (move_file now file_id from_collection to_collection d) = ?d'"
    by simp
  from d1 k have fresh: "find_one ?to file_id d = None"
    by (simp add: insert_one_Inr)
  with f have ne: "?to \<noteq> ?from" by auto
  from d1 have d1eq: "d1 = d\<lparr>colls := (colls d)(?to := colls d ?to @ [?file'])\<rparr>"
    by (simp add: insert_one_Inr)
  from find_one_inserted [OF d1] k have t1: "find_one ?to file_id d1 = Some ?file'"
    by simp
  from ne have s1: "find_one ?from file_id d1 = Some f"
    using find_one_insert_other_col [OF d1, of ?from file_id] f by simp
  have c_to: "colls ?d' ?to = colls d ?to @ [?file']"
    using ne by (simp add: delete_one_def d1eq)
  have c_from: "colls ?d' ?from = remove_first ?p (colls d ?from)"
    using ne by (simp add: delete_one_def d1eq)
  have c_other: "\<forall>col. col \<noteq> ?to \<and> col \<noteq> ?from \<longrightarrow> colls ?d' col = colls d col"
    by (simp add: delete_one_def d1eq)
  from f have "find ?p (colls d ?from) \<noteq> None"
    by (simp add: find_one_def)
  then have cnt: "length (filter ?p (colls ?d' ?from)) + 1 = length (filter ?p (colls d ?from))"
    unfolding c_from by (rule filter_remove_first)
  have gone: "distinct (map doc_id (colls d ?from)) \<longrightarrow> find_one ?from file_id ?d' = None"
    unfolding find_one_def c_from by (simp add: find_remove_first_distinct)
  from ne t1 have t2: "find_one ?to file_id ?d' = Some ?file'"
    by (simp add: find_one_delete_other_col)
  then have p: "find_in_partition to_collection file_id ?d' = Some ?file'"
    by (simp add: find_in_partition_def)
  from t2 have g0: "\<exists>y. get_file_details file_id ?d' = Some y \<and> doc_id y = file_id"
    by (rule get_file_details_some_hit)
  have g: "distinct (map doc_id (colls d ?from)) \<and> (\<forall>col. col \<noteq> ?from \<longrightarrow> find_one col file_id d = None) \<longrightarrow>
      get_file_details file_id ?d' = Some ?file'"
  proof
    assume a: "distinct (map doc_id (colls d ?from)) \<and> (\<forall>col. col \<noteq> ?from \<longrightarrow> find_one col file_id d = None)"
    have "\<forall>col. col \<noteq> ?to \<longrightarrow> find_one col file_id ?d' = None"
    proof (intro allI impI)
      fix col assume c: "col \<noteq> ?to"
      show "find_one col file_id ?d' = None"
      proof (cases "col = ?from")
        case True
        with a gone show ?thesis by simp
      next
        case False
        with c c_other have "colls ?d' col = colls d col" by simp
        then have "find_one col file_id ?d' = find_one col file_id d"
          by (simp add: find_one_def)
        with a False show ?thesis by simp
      qed
    qed
    with get_file_details_only_hit [OF t2] show "get_file_details file_id ?d' = Some ?file'"
      by blast
  qed
  have props: "doc_id ?file' = file_id \<and> collection_type ?file' = to_collection \<and> moved_date ?file' = Some now"
    using k by simp
  show ?thesis
    apply (rule exI [of _ f])
    apply (rule exI [of _ d1])
    unfolding sm
    using f d1 t1 s1 m c_to c_from c_other cnt gone t2 p g0 g props
    apply (intro conjI)
    apply assumption+
    apply blast+
    done
qed

theorem move_file_success_witness:
  "fst (fst (move_file 7 ''k1'' ''primary'' ''clouds'' example_db)) \<and>
   find_one primary_collection ''k1'' (snd (move_file 7 ''k1'' ''primary'' ''clouds'' example_db)) = None \<and>
   colls (snd (move_file 7 ''k1'' ''primary'' ''clouds'' example_db)) primary_collection
     = [example_doc ''k2'' ''other mkv'' ''primary''] \<and>
   find_in_partition ''clouds'' ''k1'' (snd (move_file 7 ''k1'' ''primary'' ''clouds'' example_db))
     = Some ((example_doc ''k1'' ''my file 2024 mp4'' ''primary'')\<lparr>collection_type := ''clouds'', moved_date := Some 7\<rparr>) \<and>
   get_file_details ''k1'' (snd (move_file 7 ''k1'' ''primary'' ''clouds'' example_db))
     = Some ((example_doc ''k1'' ''my file 2024 mp4'' ''primary'')\<lparr>collection_type := ''clouds'', moved_date := Some 7\<rparr>)"
proof -
  let ?d' = "snd (move_file 7 ''k1'' ''primary'' ''clouds'' example_db)"
  have h: "fst (fst (move_file 7 ''k1'' ''primary'' ''clouds'' example_db))"
    by (simp add: move_file_def find_one_def insert_one_def get_collection_by_name_def
        example_db_def example_doc_def empty_db_def)
  have n: "get_collection_by_name ''primary'' = primary_collection"
    by (simp add: get_collection_by_name_def)
  have src: "find_one primary_collection ''k1'' example_db
      = Some (example_doc ''k1'' ''my file 2024 mp4'' ''primary'')"
    by (simp add: find_one_def example_db_def example_doc_def empty_db_def)
  have cs: "colls example_db primary_collection
      = [example_doc ''k1'' ''my file 2024 mp4'' ''primary'', example_doc ''k2'' ''other mkv'' ''primary'']"
    by (simp add: example_db_def empty_db_def)
  have dist: "distinct (map doc_id (colls example_db primary_collection))"
    by (simp add: cs example_doc_def)
  have others: "\<forall>col. col \<noteq> primary_collection \<longrightarrow> find_one col ''k1'' example_db = None"
    by (simp add: find_one_def example_db_def example_doc_def empty_db_def)
  from move_file_success [OF h] obtain f d1 where
    a: "find_one (get_collection_by_name ''primary'') ''k1'' example_db = Some f"
    and b: "colls ?d' (get_collection_by_name ''primary'')
        = remove_first (\<lambda>x. doc_id x = ''k1'') (colls example_db (get_collection_by_name ''primary''))"
    and c: "distinct (map doc_id (colls example_db (get_collection_by_name ''primary''))) \<longrightarrow>
        find_one (get_collection_by_name ''primary'') ''k1'' ?d' = None"
    and p: "find_in_partition ''clouds'' ''k1'' ?d' = Some (f\<lparr>collection_type := ''clouds'', moved_date := Some 7\<rparr>)"
    and g: "distinct (map doc_id (colls example_db (get_collection_by_name ''primary''))) \<and>
        (\<forall>col. col \<noteq> get_collection_by_name ''primary'' \<longrightarrow> find_one col ''k1'' example_db = None) \<longrightarrow>
        get_file_details ''k1'' ?d' = Some (f\<lparr>collection_type := ''clouds'', moved_date := Some 7\<rparr>)"
    by blast
  from a src have f: "f = example_doc ''k1'' ''my file 2024 mp4'' ''primary''"
    by (simp add: n)
  from c dist have 1: "find_one primary_collection ''k1'' ?d' = None"
    by (simp add: n)
  from b have 2: "colls ?d' primary_collection = [example_doc ''k2'' ''other mkv'' ''primary'']"
    by (simp add: n cs example_doc_def)
  from g dist others have 3: "get_file_details ''k1'' ?d' = Some (f\<lparr>collection_type := ''clouds'', moved_date := Some 7\<rparr>)"
    by (simp add: n)
  from h 1 2 p 3 show ?thesis
    unfolding f by blast
qed

text \<open>
  C8, amended: for a key already present in the target, \<open>copy_file\<close> returns
  "File already exists in target collection" when the source holds the key, and
  "File not found" when it does not; in both cases the stores are unchanged, the target
  keeps its record, and no insert is attempted.
\<close>

theorem copy_file_target_exists:
  assumes "find_one (get_collection_by_name to_collection) file_id d = Some existing"
  shows "(find_one (get_collection_by_name from_collection) file_id d \<noteq> None \<longrightarrow>
            copy_file now file_id from_collection to_collection d
              = ((False, None, Msg ''File already exists in target collection''), d)) \<and>
         (find_one (get_collection_by_name from_collection) file_id d = None \<longrightarrow>
            copy_file now file_id from_collection to_collection d
              = ((False, None, Msg ''File not found''), d)) \<and>
         find_one (get_collection_by_name to_collection) file_id
           (snd (copy_file now file_id from_collection to_collection d)) = Some existing"
  using assms by (auto simp: copy_file_def Let_def split: option.splits)

theorem copy_file_target_exists_witness:
  "copy_file 7 ''k2'' ''primary'' ''clouds'' example_db
     = ((False, None, Msg ''File already exists in target collection''), example_db)"
proof -
  have t: "find_one (get_collection_by_name ''clouds'') ''k2'' example_db
      = Some (example_doc ''k2'' ''other mkv'' ''clouds'')"
    by (simp add: find_one_def get_collection_by_name_def example_db_def example_doc_def empty_db_def)
  have f: "find_one (get_collection_by_name ''primary'') ''k2'' example_db \<noteq> None"
    by (simp add: find_one_def get_collection_by_name_def example_db_def example_doc_def empty_db_def)
  from copy_file_target_exists [OF t, of "''primary''" 7] f show ?thesis
    by blast
qed

text \<open>
  C8 as stated fails: the key \<open>k3\<close> is present in the target \<open>clouds\<close> and absent
  from the source \<open>primary\<close>, and the outcome is "File not found".
\<close>

theorem copy_file_source_missing_counterexample:
  "find_one (get_collection_by_name ''clouds'') ''k3'' example_db
     = Some (example_doc ''k3'' ''third mkv'' ''clouds'') \<and>
   copy_file 7 ''k3'' ''primary'' ''clouds'' example_db \<noteq>
     ((False, None, Msg ''File already exists in target collection''), example_db) \<and>
   fst (copy_file 7 ''k3'' ''primary'' ''clouds'' example_db) = (False, None, Msg ''File not found'')"
  by (simp add: copy_file_def find_one_def get_collection_by_name_def example_db_def
      example_doc_def empty_db_def)

subsection \<open>Ingest\<close>

lemma doc_id_save_document: "doc_id (save_document k now media name) = k"
  by (simp add: save_document_def)

lemma save_file_cases:
  assumes "unpack_new_file_id FileId_decode (media_file_id media) = Inr k"
  shows "save_file FileId_decode now media name d =
     (case insert_one (get_collection_by_name name) (save_document k now media name) d of
        Inr d' \<Rightarrow> (Inr (''suc'', name), d')
      | Inl DuplicateKeyError \<Rightarrow> (Inr (''dup'', name), d)
      | Inl OperationFailure \<Rightarrow>
          (if SECOND_FILES_DATABASE_URL d then
             (case insert_one (second_or_default name) (save_document k now media name) d of
                Inr d' \<Rightarrow> (Inr (''suc'', ''second_'' @ name), d')
              | Inl DuplicateKeyError \<Rightarrow> (Inr (''dup'', ''second_'' @ name), d)
              | Inl e \<Rightarrow> (Inl e, d))
           else (Inr (''err'', name), d))
      | Inl e \<Rightarrow> (Inl e, d))"
  using assms by (simp add: save_file_def second_or_default_def Let_def split: sum.splits error.splits)

lemma insert_one_fresh:
  "\<not> full d col \<Longrightarrow> find_one col (doc_id doc) d = None \<Longrightarrow> insert_one col doc d = Inr (with_doc col doc d)"
  by (simp add: insert_one_def with_doc_def)


lemma insert_one_full: "full d col \<Longrightarrow> insert_one col doc d = Inl OperationFailure"
  by (simp add: insert_one_def)



lemma example_key:
  "unpack_new_file_id example_decode (media_file_id example_media) = Inr ''BQADBAADed8NhkhwAALzrwfPu338_xYE''"
  by code_simp


text \<open>
  The overflow collection is the one of the same name in the second database, and
  \<open>second_primary\<close> for a name that is none of the three.
\<close>

lemma second_or_default_eq:
  "second_or_default name =
     (if name = ''clouds'' then second_clouds
      else if name = ''archive'' then second_archive
      else second_primary)"
  by (simp add: second_or_default_def second_col_get_def)

text \<open>
  What \<open>save_file\<close> does when the insert into the primary collection raises
  \<open>OperationFailure\<close>: without a second database it returns \<open>err\<close>; with one, it
  inserts the same document into the overflow collection, which gives \<open>suc\<close> with the
  document stored there, or \<open>dup\<close>; and when the overflow collection signals a capacity
  failure as well, that \<open>OperationFailure\<close> is not caught and leaves \<open>save_file\<close>.
\<close>

lemma save_file_primary_full:
  assumes u: "unpack_new_file_id FileId_decode (media_file_id media) = Inr k"
    and f: "full d (get_collection_by_name name)"
  shows "(\<not> SECOND_FILES_DATABASE_URL d \<longrightarrow>
            save_file FileId_decode now media name d = (Inr (''err'', name), d)) \<and>
         (SECOND_FILES_DATABASE_URL d \<and> \<not> full d (second_or_default name) \<and>
          find_one (second_or_default name) k d = None \<longrightarrow>
            save_file FileId_decode now media name d
              = (Inr (''suc'', ''second_'' @ name),
                 with_doc (second_or_default name) (save_document k now media name) d)) \<and>
         (SECOND_FILES_DATABASE_URL d \<and> \<not> full d (second_or_default name) \<and>
          find_one (second_or_default name) k d \<noteq> None \<longrightarrow>
            save_file FileId_decode now media name d = (Inr (''dup'', ''second_'' @ name), d)) \<and>
         (SECOND_FILES_DATABASE_URL d \<and> full d (second_or_default name) \<longrightarrow>
            save_file FileId_decode now media name d = (Inl OperationFailure, d))"
proof -
  let ?doc = "save_document k now media name"
  have p: "insert_one (get_collection_by_name name) ?doc d = Inl OperationFailure"
    using f by (rule insert_one_full)
  have a: "\<not> full d (second_or_default name) \<and> find_one (second_or_default name) k d = None \<longrightarrow>
      insert_one (second_or_default name) ?doc d = Inr (with_doc (second_or_default name) ?doc d)"
    by (simp add: insert_one_fresh doc_id_save_document)
  have b: "\<not> full d (second_or_default name) \<and> find_one (second_or_default name) k d \<noteq> None \<longrightarrow>
      insert_one (second_or_default name) ?doc d = Inl DuplicateKeyError"
    by (simp add: insert_one_def doc_id_save_document)
  have c: "full d (second_or_default name) \<longrightarrow>
      insert_one (second_or_default name) ?doc d = Inl OperationFailure"
    by (simp add: insert_one_full)
  show ?thesis
    using a b c by (auto simp: save_file_cases [OF u] p)
qed

text \<open>
  C3 fails on the code. The clouds collection signals a capacity failure and the second
  database is configured: \<open>save_file\<close> retries on \<open>second_clouds\<close>, and stores the
  document there when that collection accepts it; but when \<open>second_clouds\<close> signals a
  capacity failure too, \<open>save_file\<close> raises \<open>OperationFailure\<close>, where without a
  second database it returns \<open>err\<close>.
\<close>

theorem save_file_overflow_full_raises:
  "save_file example_decode 1 example_media ''clouds'' overflow_full_db
     = (Inl OperationFailure, overflow_full_db) \<and>
   save_file example_decode 1 example_media ''clouds'' clouds_full_db
     = (Inr (''suc'', ''second_clouds''),
        clouds_full_db\<lparr>colls := (\<lambda>col. [])(second_clouds :=
          [save_document ''BQADBAADed8NhkhwAALzrwfPu338_xYE'' 1 example_media ''clouds''])\<rparr>) \<and>
   save_file example_decode 1 example_media ''clouds''
       (overflow_full_db\<lparr>SECOND_FILES_DATABASE_URL := False\<rparr>)
     = (Inr (''err'', ''clouds''), overflow_full_db\<lparr>SECOND_FILES_DATABASE_URL := False\<rparr>)"
proof -
  have r: "second_or_default ''clouds'' = second_clouds" "get_collection_by_name ''clouds'' = clouds_collection"
    by (simp_all add: second_or_default_def second_col_get_def get_collection_by_name_def)
  have 1: "save_file example_decode 1 example_media ''clouds'' overflow_full_db
      = (Inl OperationFailure, overflow_full_db)"
    by (simp add: save_file_cases [OF example_key] r insert_one_def overflow_full_db_def empty_db_def)
  have 2: "save_file example_decode 1 example_media ''clouds'' clouds_full_db
     = (Inr (''suc'', ''second_clouds''),
        clouds_full_db\<lparr>colls := (\<lambda>col. [])(second_clouds :=
          [save_document ''BQADBAADed8NhkhwAALzrwfPu338_xYE'' 1 example_media ''clouds''])\<rparr>)"
    by (simp add: save_file_cases [OF example_key] r insert_one_def find_one_def doc_id_save_document
        clouds_full_db_def empty_db_def)
  have 3: "save_file example_decode 1 example_media ''clouds''
       (overflow_full_db\<lparr>SECOND_FILES_DATABASE_URL := False\<rparr>)
     = (Inr (''err'', ''clouds''), overflow_full_db\<lparr>SECOND_FILES_DATABASE_URL := False\<rparr>)"
    by (simp add: save_file_cases [OF example_key] r insert_one_def overflow_full_db_def empty_db_def)
  from 1 2 3 show ?thesis by blast
qed

subsection \<open>Query building\<close>























lemma lower_char_uncased:
  assumes "(of_char c :: nat) < 65 \<or> (90 < (of_char c :: nat) \<and> (of_char c :: nat) < 97) \<or>
    (122 < (of_char c :: nat) \<and> (of_char c :: nat) < 192)"
  shows "lower_char x = c \<longleftrightarrow> x = c"
proof (cases "(65 \<le> (of_char x :: nat) \<and> (of_char x :: nat) \<le> 90) \<or>
    (192 \<le> (of_char x :: nat) \<and> (of_char x :: nat) \<le> 222 \<and> (of_char x :: nat) \<noteq> 215)")
  case False
  then have "lower_char x = x" by (auto simp: lower_char_def Let_def)
  then show ?thesis by simp
next
  case True
  then have n: "x \<noteq> c"
    using assms by auto
  from True have "(of_char x :: nat) + 32 < 256" by auto
  then have "((of_char x :: nat) + 32) mod 256 = of_char x + 32" by simp
  then have "(of_char (lower_char x) :: nat) = of_char x + 32"
    using True by (simp add: lower_char_def Let_def)
  then have "lower_char x \<noteq> c"
    using True assms by auto
  with n show ?thesis by simp
qed


lemma lower_char_whitespace: "lower_char x = c \<longleftrightarrow> x = c" if "c \<in> set whitespace"
  using that by (intro lower_char_uncased) (auto simp: whitespace_def)


























lemma plain_query_append: "plain_query (a @ c # b) \<longleftrightarrow> plain_query a \<and> c \<notin> set metacharacters \<and> plain_query b"
  by (simp add: plain_query_def)





text \<open>
  What the filter is for other queries: a pattern that does not compile gives the
  filter for equality with the query, and the empty query matches every name with a
  character other than the line feed.
\<close>

lemma compile_query_examples:
  "compile_query ''(cat'' = Some (Plain ''(cat'') \<and>
   compile_query ''cat)'' = Some (Plain ''cat)'') \<and>
   compile_query ''a.b'' = Some (Compiled (Seq (Alt WordBoundary (Cls False (map CChar separators)))
     (Seq (Lit CHR ''a'') (Seq AnyChar (Seq (Lit CHR ''b'')
        (Alt WordBoundary (Cls False (map CChar separators)))))))) \<and>
   compile_query '''' = Some (Compiled AnyChar) \<and>
   compile_query ''c++'' = None"
  by code_simp

subsection \<open>The search engine\<close>

lemma filter_and_page_eq:
  "filter_and_page lang offset max_results results =
     (slice_to (slice_from (language_filter lang results) offset) max_results,
      (if offset + max_results \<ge> int (length (language_filter lang results)) then None
       else Some (offset + max_results)),
      int (length (language_filter lang results)))"
  by (simp add: filter_and_page_def language_filter_def Let_def)

lemma search_with_eq:
  "search_with Collection_bool flt collection_name max_results offset lang d =
     (case merged_results Collection_bool flt collection_name d of
        Inl e \<Rightarrow> Inl e
      | Inr results \<Rightarrow>
          (case filter_and_page lang offset max_results results of
             (files, next_offset, total_results) \<Rightarrow>
               Inr (files, next_offset, total_results,
                    if truthy collection_name then None
                    else Some (snd (search_all flt [''primary'', ''clouds'', ''archive''] d)))))"
  by (simp add: search_with_def merged_results_def split: prod.splits sum.splits)

lemma slices_nonneg:
  "0 \<le> offset \<Longrightarrow> 0 \<le> max_results \<Longrightarrow>
     slice_to (slice_from xs offset) max_results = take (nat max_results) (drop (nat offset) xs)"
  by (simp add: slice_to_def slice_from_def)

text \<open>
  A search raises exactly when it is for a named collection, the second database is
  configured, the name is one of the three, and the truth test of a collection object
  raises.
\<close>

lemma merged_results_raises:
  "merged_results Collection_bool flt collection_name d = Inl e \<longleftrightarrow>
     truthy collection_name \<and> SECOND_FILES_DATABASE_URL d \<and>
     second_col_get (the collection_name) \<noteq> None \<and> Collection_bool = Inl e"
  by (auto simp: merged_results_def search_one_def Let_def split: option.splits sum.splits if_splits)

lemma search_with_raises:
  "search_with Collection_bool flt collection_name max_results offset lang d = Inl e \<longleftrightarrow>
     truthy collection_name \<and> SECOND_FILES_DATABASE_URL d \<and>
     second_col_get (the collection_name) \<noteq> None \<and> Collection_bool = Inl e"
proof -
  have "search_with Collection_bool flt collection_name max_results offset lang d = Inl e \<longleftrightarrow>
      merged_results Collection_bool flt collection_name d = Inl e"
    unfolding search_with_eq by (auto split: sum.splits prod.splits)
  then show ?thesis
    by (simp only: merged_results_raises)
qed

text \<open>
  In every search that returns, with an offset and a limit that are not negative, the
  total is the number of results before slicing, the page holds the results from
  \<open>offset\<close> up to but not including \<open>offset + limit\<close>, and the next offset is
  \<open>offset + limit\<close> unless that is at least the total, in which case it is the empty
  marker.
\<close>

lemma search_with_pagination:
  assumes "0 \<le> offset" and "0 \<le> max_results"
    and "search_with Collection_bool flt collection_name max_results offset lang d
           = Inr (files, next_offset, total_results, counts)"
  shows "\<exists>results. merged_results Collection_bool flt collection_name d = Inr results \<and>
         total_results = int (length (language_filter lang results)) \<and>
         files = take (nat max_results) (drop (nat offset) (language_filter lang results)) \<and>
         length files = min (nat max_results) (length (language_filter lang results) - nat offset) \<and>
         (\<forall>i<length files. files ! i = language_filter lang results ! (nat offset + i)) \<and>
         next_offset = (if offset + max_results \<ge> total_results then None
                        else Some (offset + max_results)) \<and>
         (total_results = 7 \<and> max_results = 5 \<and> offset = 0 \<longrightarrow>
            length files = 5 \<and> next_offset = Some 5) \<and>
         (total_results = 7 \<and> max_results = 5 \<and> offset = 5 \<longrightarrow>
            length files = 2 \<and> next_offset = None)"
proof -
  from assms(3) obtain results where r: "merged_results Collection_bool flt collection_name d = Inr results"
    unfolding search_with_eq by (auto split: sum.splits)
  let ?R = "language_filter lang results"
  from assms(3) have c: "take (nat max_results) (drop (nat offset) ?R) = files \<and>
      (if offset + max_results \<ge> int (length ?R) then None else Some (offset + max_results)) = next_offset \<and>
      int (length ?R) = total_results"
    unfolding search_with_eq r sum.case filter_and_page_eq slices_nonneg [OF assms(1,2)] prod.case
    by blast
  then have t: "total_results = int (length ?R)"
    and f: "files = take (nat max_results) (drop (nat offset) ?R)"
    by simp_all
  from c have n: "next_offset = (if offset + max_results \<ge> total_results then None else Some (offset + max_results))"
    by auto
  from f have l: "length files = min (nat max_results) (length ?R - nat offset)"
    by simp
  have i: "\<forall>i<length files. files ! i = ?R ! (nat offset + i)"
  proof (intro allI impI)
    fix i assume "i < length files"
    with l have b: "i < nat max_results" "i < length ?R - nat offset" by simp_all
    then have "nat offset \<le> length ?R" by simp
    with b show "files ! i = ?R ! (nat offset + i)"
      unfolding f by (simp add: nth_drop)
  qed
  have e1: "total_results = 7 \<and> max_results = 5 \<and> offset = 0 \<longrightarrow> length files = 5 \<and> next_offset = Some 5"
    using t l n by auto
  have e2: "total_results = 7 \<and> max_results = 5 \<and> offset = 5 \<longrightarrow> length files = 2 \<and> next_offset = None"
    using t l n by auto
  from r t f l i n e1 e2 show ?thesis by blast
qed

text \<open>
  C5 fails on the code. Seven records match "film", and the second database is
  configured. With pymongo 4, the search in the named collection \<open>primary\<close> raises
  \<open>NotImplementedError\<close> at the truth test of the collection object and returns no
  page, while the search in all collections, which has no such test, returns the first
  page of 5 records with next offset 5 and total 7. Without the second database, and
  with the truth value of pymongo 3, the named search returns its pages: 5 records
  with next offset 5, then 2 records with the empty marker.
\<close>

theorem search_named_collection_raises:
  "get_search_results pymongo4_bool False ''film'' (Some ''primary'') 5 0 None
       (seven_db\<lparr>SECOND_FILES_DATABASE_URL := True\<rparr>)
     = Some (Inl NotImplementedError) \<and>
   get_search_results pymongo4_bool False ''film'' None 5 0 None
       (seven_db\<lparr>SECOND_FILES_DATABASE_URL := True\<rparr>)
     = Some (Inr (map (tag_source ''primary'') (take 5 seven_docs), Some 5, 7,
          Some [(''primary'', 7), (''clouds'', 0), (''archive'', 0)])) \<and>
   get_search_results pymongo4_bool False ''film'' (Some ''primary'') 5 0 None seven_db
     = Some (Inr (map (tag_source ''primary'') (take 5 seven_docs), Some 5, 7, None)) \<and>
   get_search_results pymongo3_bool False ''film'' (Some ''primary'') 5 0 None
       (seven_db\<lparr>SECOND_FILES_DATABASE_URL := True\<rparr>)
     = Some (Inr (map (tag_source ''primary'') (take 5 seven_docs), Some 5, 7, None)) \<and>
   get_search_results pymongo3_bool False ''film'' (Some ''primary'') 5 5 None
       (seven_db\<lparr>SECOND_FILES_DATABASE_URL := True\<rparr>)
     = Some (Inr (map (tag_source ''primary'') (drop 5 seven_docs), None, 7, None))"
proof -
  have 1: "get_search_results pymongo4_bool False ''film'' (Some ''primary'') 5 0 None
       (seven_db\<lparr>SECOND_FILES_DATABASE_URL := True\<rparr>) = Some (Inl NotImplementedError)"
    by code_simp
  have 2: "get_search_results pymongo4_bool False ''film'' None 5 0 None
       (seven_db\<lparr>SECOND_FILES_DATABASE_URL := True\<rparr>)
     = Some (Inr (map (tag_source ''primary'') (take 5 seven_docs), Some 5, 7,
          Some [(''primary'', 7), (''clouds'', 0), (''archive'', 0)]))"
    by code_simp
  have 3: "get_search_results pymongo4_bool False ''film'' (Some ''primary'') 5 0 None seven_db
     = Some (Inr (map (tag_source ''primary'') (take 5 seven_docs), Some 5, 7, None))"
    by code_simp
  have 4: "get_search_results pymongo3_bool False ''film'' (Some ''primary'') 5 0 None
       (seven_db\<lparr>SECOND_FILES_DATABASE_URL := True\<rparr>)
     = Some (Inr (map (tag_source ''primary'') (take 5 seven_docs), Some 5, 7, None))"
    by code_simp
  have 5: "get_search_results pymongo3_bool False ''film'' (Some ''primary'') 5 5 None
       (seven_db\<lparr>SECOND_FILES_DATABASE_URL := True\<rparr>)
     = Some (Inr (map (tag_source ''primary'') (drop 5 seven_docs), None, 7, None))"
    by code_simp
  from 1 2 3 4 5 show ?thesis by blast
qed

lemma language_filter_lowercase_token:
  "truthy (Some token) \<Longrightarrow> lower token = token \<Longrightarrow>
     language_filter (Some token) results
       = filter (\<lambda>f. contains (lower (file_name f)) (lower token)) results"
  by (simp add: language_filter_def)

text \<open>
  C6 fails on the code: the name is lowercased and the token is not, so the token
  "Hindi" keeps no record, also none named "Movie Hindi 2024", while "hindi" keeps it.
\<close>

theorem language_filter_uppercase_token:
  "filter_and_page (Some ''Hindi'') 0 10 [example_doc ''k1'' ''Movie Hindi 2024'' ''primary'']
     = ([], None, 0) \<and>
   filter_and_page (Some ''hindi'') 0 10 [example_doc ''k1'' ''Movie Hindi 2024'' ''primary'']
     = ([example_doc ''k1'' ''Movie Hindi 2024'' ''primary''], None, 1)"
  by code_simp

text \<open>A negative offset counts from the end of the results, as a Python slice does.\<close>

lemma filter_and_page_negative_offset:
  "filter_and_page None (- 2) 5 seven_docs = (drop 5 seven_docs, Some 3, 7)"
  by (simp add: filter_and_page_def truthy_def slice_from_def slice_to_def seven_docs_def)

subsection \<open>Bulk move\<close>

lemma set_remove_first: "set (remove_first p xs) \<subseteq> set xs"
  by (induction xs) auto

lemma distinct_remove_first:
  "distinct (map doc_id xs) \<Longrightarrow> distinct (map doc_id (remove_first p xs))"
proof (induction xs)
  case Nil
  then show ?case by simp
next
  case (Cons x xs)
  then show ?case
    using set_remove_first [of p xs] by auto
qed

lemma find_distinct_member:
  "distinct (map doc_id xs) \<Longrightarrow> x \<in> set xs \<Longrightarrow> find (\<lambda>y. doc_id y = doc_id x) xs = Some x"
  by (induction xs) (auto simp: rev_image_eqI)

lemma move_step_frame:
  assumes "insert_one to_col f' d = Inr d1" and "k' \<noteq> doc_id f'"
  shows "find_one col k' (delete_one from_col (doc_id f') d1) = find_one col k' d"
  using assms
  by (auto simp: insert_one_Inr find_one_def delete_one_def find_snoc find_remove_first_other
      split: option.splits)

lemma move_step_full:
  assumes "insert_one to_col f' d = Inr d1"
  shows "full (delete_one from_col k d1) = full d"
  using assms by (auto simp: insert_one_Inr delete_one_def)

lemma move_step_moved:
  assumes "insert_one to_col f' d = Inr d1" and "to_col \<noteq> from_col"
    and "distinct (map doc_id (colls d from_col))"
  shows "find_one to_col (doc_id f') (delete_one from_col (doc_id f') d1) = Some f'"
    and "find_one from_col (doc_id f') (delete_one from_col (doc_id f') d1) = None"
    and "distinct (map doc_id (colls (delete_one from_col (doc_id f') d1) from_col))"
  using assms
  by (auto simp: insert_one_Inr find_one_def delete_one_def find_snoc find_remove_first_distinct
      distinct_remove_first)

lemma bulk_move_loop_fresh:
  assumes "\<not> full d to_col" "find_one to_col (doc_id f) d = None"
  shows "bulk_move_loop from_col to_col tn ((t, f) # files) c d =
     bulk_move_loop from_col to_col tn files (c + 1)
       (delete_one from_col (doc_id f)
          (with_doc to_col (f\<lparr>collection_type := tn, moved_date := Some t\<rparr>) d))"
proof -
  from assms have "insert_one to_col (f\<lparr>collection_type := tn, moved_date := Some t\<rparr>) d
      = Inr (with_doc to_col (f\<lparr>collection_type := tn, moved_date := Some t\<rparr>) d)"
    by (simp add: insert_one_fresh)
  then show ?thesis
    by (simp only: bulk_move_loop.simps sum.case)
qed

lemma bulk_move_loop_collide:
  assumes "\<not> full d to_col" "find_one to_col (doc_id f) d \<noteq> None"
  shows "bulk_move_loop from_col to_col tn ((t, f) # files) c d =
     bulk_move_loop from_col to_col tn files c d"
proof -
  from assms have "insert_one to_col (f\<lparr>collection_type := tn, moved_date := Some t\<rparr>) d
      = Inl DuplicateKeyError"
    by (simp add: insert_one_Inl)
  then show ?thesis
    by (simp only: bulk_move_loop.simps sum.case error.case)
qed

lemma step_state:
  assumes "\<not> full d to_col" "find_one to_col (doc_id f) d = None"
  shows "\<not> full (delete_one from_col (doc_id f)
                (with_doc to_col (f\<lparr>collection_type := tn, moved_date := Some t\<rparr>) d)) to_col"
    and "\<And>col k'. k' \<noteq> doc_id f \<Longrightarrow>
           find_one col k' (delete_one from_col (doc_id f)
                (with_doc to_col (f\<lparr>collection_type := tn, moved_date := Some t\<rparr>) d))
             = find_one col k' d"
proof -
  let ?f' = "f\<lparr>collection_type := tn, moved_date := Some t\<rparr>"
  let ?d2 = "delete_one from_col (doc_id f) (with_doc to_col ?f' d)"
  from assms(1,2) have i: "insert_one to_col ?f' d = Inr (with_doc to_col ?f' d)"
    by (simp add: insert_one_fresh)
  from move_step_full [OF i, of from_col "doc_id f"] assms(1) show "\<not> full ?d2 to_col"
    by simp
  fix col k' assume "k' \<noteq> doc_id f"
  with move_step_frame [OF i, of k' col from_col] show "find_one col k' ?d2 = find_one col k' d"
    by simp
qed

lemma bulk_move_loop_count:
  assumes "\<not> full d to_col" and "distinct (map (\<lambda>tf. doc_id (snd tf)) files)"
  shows "fst (bulk_move_loop from_col to_col tn files c d)
     = Inr (c + length (filter (\<lambda>tf. find_one to_col (doc_id (snd tf)) d = None) files))"
  using assms
proof (induction files arbitrary: c d)
  case Nil
  then show ?case by simp
next
  case (Cons tf files)
  obtain t f where tf: "tf = (t, f)" by (cases tf)
  from Cons.prems(2) tf have dist: "distinct (map (\<lambda>tf. doc_id (snd tf)) files)"
    and notin: "doc_id f \<notin> (\<lambda>tf. doc_id (snd tf)) ` set files"
    by simp_all
  from notin have other: "\<forall>x\<in>set files. doc_id (snd x) \<noteq> doc_id f"
    by force
  show ?case
  proof (cases "find_one to_col (doc_id f) d = None")
    case False
    with Cons.IH [OF Cons.prems(1) dist, of c] tf show ?thesis
      by (simp add: bulk_move_loop_collide [OF Cons.prems(1) False] del: bulk_move_loop.simps)
  next
    case True
    let ?d2 = "delete_one from_col (doc_id f)
                (with_doc to_col (f\<lparr>collection_type := tn, moved_date := Some t\<rparr>) d)"
    note st = step_state [OF Cons.prems(1) True, where from_col = from_col and tn = tn and t = t]
    have "filter (\<lambda>tf. find_one to_col (doc_id (snd tf)) ?d2 = None) files
        = filter (\<lambda>tf. find_one to_col (doc_id (snd tf)) d = None) files"
      by (rule filter_cong) (use other st(2) in auto)
    with Cons.IH [OF st(1) dist, of "c + 1"] True tf show ?thesis
      by (simp add: bulk_move_loop_fresh [OF Cons.prems(1) True] del: bulk_move_loop.simps)
  qed
qed

lemma bulk_move_loop_frame:
  assumes "\<not> full d to_col"
    and "\<forall>tf\<in>set files. doc_id (snd tf) = k \<longrightarrow> find_one to_col k d \<noteq> None"
  shows "find_one col k (snd (bulk_move_loop from_col to_col tn files c d)) = find_one col k d"
  using assms
proof (induction files arbitrary: c d)
  case Nil
  then show ?case by simp
next
  case (Cons tf files)
  obtain t f where tf: "tf = (t, f)" by (cases tf)
  show ?case
  proof (cases "find_one to_col (doc_id f) d = None")
    case False
    from Cons.prems(2) have "\<forall>tf\<in>set files. doc_id (snd tf) = k \<longrightarrow> find_one to_col k d \<noteq> None"
      by simp
    from Cons.IH [OF Cons.prems(1) this, of c] tf show ?thesis
      by (simp add: bulk_move_loop_collide [OF Cons.prems(1) False] del: bulk_move_loop.simps)
  next
    case True
    let ?d2 = "delete_one from_col (doc_id f)
                (with_doc to_col (f\<lparr>collection_type := tn, moved_date := Some t\<rparr>) d)"
    note st = step_state [OF Cons.prems(1) True, where from_col = from_col and tn = tn and t = t]
    from Cons.prems(2) tf True have ne: "k \<noteq> doc_id f" by auto
    from Cons.prems(2) st(2) [OF ne]
    have "\<forall>tf\<in>set files. doc_id (snd tf) = k \<longrightarrow> find_one to_col k ?d2 \<noteq> None"
      by simp
    from Cons.IH [OF st(1) this, of "c + 1"] st(2) [OF ne, of col] tf
    show ?thesis
      by (simp add: bulk_move_loop_fresh [OF Cons.prems(1) True] del: bulk_move_loop.simps)
  qed
qed

lemma bulk_move_loop_moved:
  assumes "\<not> full d to_col" and "distinct (map (\<lambda>tf. doc_id (snd tf)) files)"
    and "(t, f) \<in> set files" and "find_one to_col (doc_id f) d = None"
    and "to_col \<noteq> from_col" and "distinct (map doc_id (colls d from_col))"
  shows "find_one to_col (doc_id f) (snd (bulk_move_loop from_col to_col tn files c d))
           = Some (f\<lparr>collection_type := tn, moved_date := Some t\<rparr>) \<and>
         find_one from_col (doc_id f) (snd (bulk_move_loop from_col to_col tn files c d)) = None"
  using assms
proof (induction files arbitrary: c d)
  case Nil
  then show ?case by simp
next
  case (Cons tf files)
  obtain t0 g where tf: "tf = (t0, g)" by (cases tf)
  from Cons.prems(2) tf have dist: "distinct (map (\<lambda>tf. doc_id (snd tf)) files)"
    and notin: "doc_id g \<notin> (\<lambda>tf. doc_id (snd tf)) ` set files"
    by simp_all
  from notin have other: "\<forall>x\<in>set files. doc_id (snd x) \<noteq> doc_id g"
    by force
  show ?case
  proof (cases "(t, f) = (t0, g)")
    case True
    then have e: "t0 = t" "g = f" by simp_all
    let ?f' = "f\<lparr>collection_type := tn, moved_date := Some t\<rparr>"
    let ?d2 = "delete_one from_col (doc_id f) (with_doc to_col ?f' d)"
    from Cons.prems(1,4) have i: "insert_one to_col ?f' d = Inr (with_doc to_col ?f' d)"
      by (simp add: insert_one_fresh)
    note st = step_state [OF Cons.prems(1,4), where from_col = from_col and tn = tn and t = t]
    from move_step_moved(1,2) [OF i Cons.prems(5,6)]
    have m: "find_one to_col (doc_id f) ?d2 = Some ?f'" "find_one from_col (doc_id f) ?d2 = None"
      by simp_all
    from other e have v: "\<forall>tf\<in>set files. doc_id (snd tf) = doc_id f \<longrightarrow> find_one to_col (doc_id f) ?d2 \<noteq> None"
      by simp
    from bulk_move_loop_frame [OF st(1) v, where from_col = from_col and tn = tn and c = "c + 1"] m
    show ?thesis
      unfolding tf e bulk_move_loop_fresh [OF Cons.prems(1,4)] by simp
  next
    case False
    with Cons.prems(3) tf have mem: "(t, f) \<in> set files" by auto
    with other have ne: "doc_id f \<noteq> doc_id g" by force
    show ?thesis
    proof (cases "find_one to_col (doc_id g) d = None")
      case c: False
      from Cons.IH [OF Cons.prems(1) dist mem Cons.prems(4,5,6), of c] show ?thesis
        unfolding tf bulk_move_loop_collide [OF Cons.prems(1) c] .
    next
      case c: True
      let ?g' = "g\<lparr>collection_type := tn, moved_date := Some t0\<rparr>"
      let ?d2 = "delete_one from_col (doc_id g) (with_doc to_col ?g' d)"
      from Cons.prems(1) c have i: "insert_one to_col ?g' d = Inr (with_doc to_col ?g' d)"
        by (simp add: insert_one_fresh)
      note st = step_state [OF Cons.prems(1) c, where from_col = from_col and tn = tn and t = t0]
      from st(2) [OF ne] Cons.prems(4) have fr: "find_one to_col (doc_id f) ?d2 = None"
        by simp
      from move_step_moved(3) [OF i Cons.prems(5,6)] have ds: "distinct (map doc_id (colls ?d2 from_col))"
        by simp
      from Cons.IH [OF st(1) dist mem fr Cons.prems(5) ds, of "c + 1"] show ?thesis
        unfolding tf bulk_move_loop_fresh [OF Cons.prems(1) c] .
    qed
  qed
qed

lemma zip_clock:
  "map snd (zip (map clock [0..<length files]) files) = files"
  by (simp add: map_snd_zip)

lemma zip_clock_member:
  assumes "f \<in> set files"
  shows "\<exists>t. (t, f) \<in> set (zip (map clock [0..<length files]) files)"
proof -
  from assms obtain i where i: "i < length files" "files ! i = f"
    by (auto simp: in_set_conv_nth)
  then have "zip (map clock [0..<length files]) files ! i = (clock i, f)"
    by simp
  moreover from i have "i < length (zip (map clock [0..<length files]) files)"
    by simp
  ultimately have "(clock i, f) \<in> set (zip (map clock [0..<length files]) files)"
    by (metis nth_mem)
  then show ?thesis ..
qed

lemma map_snd_key_zip:
  "length ts = length fs \<Longrightarrow> map (\<lambda>tf. g (snd tf)) (zip ts fs) = map g fs"
  by (induction ts fs rule: list_induct2) auto

lemma filter_snd_zip_length:
  "length ts = length fs \<Longrightarrow>
     length (filter (\<lambda>tf. P (snd tf)) (zip ts fs)) = length (filter P fs)"
  by (induction ts fs rule: list_induct2) auto

text \<open>
  C9: \<open>bulk_move_files\<close> lists the matching documents of the source first and then
  moves them one by one. When the target accepts writes and the keys of the source are
  unique, the returned count is the number of matching documents whose key the target
  did not hold; each of those is then in the target, with \<open>collection_type\<close> and
  \<open>moved_date\<close> set, and gone from the source; each matching document whose key the
  target held is skipped, stays in the source, and leaves the target's record as it
  was. With three matching documents of which one collides the count is 2.
\<close>

theorem bulk_move_partial_success:
  assumes "\<not> full d (get_collection_by_name to_collection)"
    and "distinct (map doc_id (colls d (get_collection_by_name from_collection)))"
  shows "fst (bulk_move_with flt clock from_collection to_collection d)
           = Inr (length (filter (\<lambda>f. find_one (get_collection_by_name to_collection) (doc_id f) d = None)
                    (find_matching flt (get_collection_by_name from_collection) d))) \<and>
         (\<forall>f\<in>set (find_matching flt (get_collection_by_name from_collection) d).
            find_one (get_collection_by_name to_collection) (doc_id f) d \<noteq> None \<longrightarrow>
              find_one (get_collection_by_name from_collection) (doc_id f)
                (snd (bulk_move_with flt clock from_collection to_collection d)) = Some f \<and>
              find_one (get_collection_by_name to_collection) (doc_id f)
                (snd (bulk_move_with flt clock from_collection to_collection d))
                = find_one (get_collection_by_name to_collection) (doc_id f) d) \<and>
         (\<forall>f\<in>set (find_matching flt (get_collection_by_name from_collection) d).
            find_one (get_collection_by_name to_collection) (doc_id f) d = None \<longrightarrow>
              find_one (get_collection_by_name from_collection) (doc_id f)
                (snd (bulk_move_with flt clock from_collection to_collection d)) = None \<and>
              (\<exists>t. find_one (get_collection_by_name to_collection) (doc_id f)
                     (snd (bulk_move_with flt clock from_collection to_collection d))
                   = Some (f\<lparr>collection_type := to_collection, moved_date := Some t\<rparr>))) \<and>
         (length (find_matching flt (get_collection_by_name from_collection) d) = 3 \<and>
          length (filter (\<lambda>f. find_one (get_collection_by_name to_collection) (doc_id f) d \<noteq> None)
                    (find_matching flt (get_collection_by_name from_collection) d)) = 1 \<longrightarrow>
            fst (bulk_move_with flt clock from_collection to_collection d) = Inr 2)"
proof -
  let ?F = "get_collection_by_name from_collection"
  let ?T = "get_collection_by_name to_collection"
  let ?ms = "find_matching flt ?F d"
  let ?tfs = "zip (map clock [0..<length ?ms]) ?ms"
  let ?run = "bulk_move_loop ?F ?T to_collection ?tfs 0 d"
  have run: "bulk_move_with flt clock from_collection to_collection d = ?run"
    by (simp add: bulk_move_with_def Let_def)
  have sub: "set ?ms \<subseteq> set (colls d ?F)"
    by (simp add: find_matching_def)
  have dm: "distinct (map doc_id ?ms)"
    using assms(2) by (simp add: find_matching_def distinct_map_filter)
  have keys: "map (\<lambda>tf. doc_id (snd tf)) ?tfs = map doc_id ?ms"
    by (rule map_snd_key_zip) simp
  from dm have dt: "distinct (map (\<lambda>tf. doc_id (snd tf)) ?tfs)"
    by (simp only: keys)
  have cnt: "length (filter (\<lambda>tf. find_one ?T (doc_id (snd tf)) d = None) ?tfs)
      = length (filter (\<lambda>f. find_one ?T (doc_id f) d = None) ?ms)"
    by (rule filter_snd_zip_length) simp
  from bulk_move_loop_count [OF assms(1) dt, where from_col = ?F and tn = to_collection and c = 0] cnt
  have c1: "fst ?run = Inr (length (filter (\<lambda>f. find_one ?T (doc_id f) d = None) ?ms))"
    by simp
  have c2: "find_one ?F (doc_id f) (snd ?run) = Some f \<and>
      find_one ?T (doc_id f) (snd ?run) = find_one ?T (doc_id f) d"
    if f: "f \<in> set ?ms" and col: "find_one ?T (doc_id f) d \<noteq> None" for f
  proof -
    from col have v: "\<forall>tf\<in>set ?tfs. doc_id (snd tf) = doc_id f \<longrightarrow> find_one ?T (doc_id f) d \<noteq> None"
      by simp
    from f sub have "f \<in> set (colls d ?F)" by blast
    with assms(2) have s: "find_one ?F (doc_id f) d = Some f"
      by (simp add: find_one_def find_distinct_member)
    note fr = bulk_move_loop_frame [OF assms(1) v, where from_col = ?F and tn = to_collection and c = 0]
    from fr [of ?F] s have a: "find_one ?F (doc_id f) (snd ?run) = Some f"
      by (rule trans)
    have b: "find_one ?T (doc_id f) (snd ?run) = find_one ?T (doc_id f) d"
      by (rule fr)
    from a b show ?thesis by (rule conjI)
  qed
  have c3: "find_one ?F (doc_id f) (snd ?run) = None \<and>
      (\<exists>t. find_one ?T (doc_id f) (snd ?run) = Some (f\<lparr>collection_type := to_collection, moved_date := Some t\<rparr>))"
    if f: "f \<in> set ?ms" and fr: "find_one ?T (doc_id f) d = None" for f
  proof -
    from f sub have "f \<in> set (colls d ?F)" by blast
    with assms(2) have s: "find_one ?F (doc_id f) d = Some f"
      by (simp add: find_one_def find_distinct_member)
    from fr s have ne: "?T \<noteq> ?F"
      by (metis option.distinct(1))
    have "\<exists>t. (t, f) \<in> set ?tfs" by (rule zip_clock_member [OF f])
    then obtain t where t: "(t, f) \<in> set ?tfs" ..
    have "find_one ?T (doc_id f) (snd ?run)
           = Some (f\<lparr>collection_type := to_collection, moved_date := Some t\<rparr>) \<and>
         find_one ?F (doc_id f) (snd ?run) = None"
      by (rule bulk_move_loop_moved [where files = ?tfs and t = t and f = f and d = d
            and to_col = ?T and from_col = ?F and tn = to_collection and c = 0])
        (fact assms(1) dt t fr ne assms(2))+
    then show ?thesis by blast
  qed
  have c4: "fst ?run = Inr 2"
    if "length ?ms = 3 \<and> length (filter (\<lambda>f. find_one ?T (doc_id f) d \<noteq> None) ?ms) = 1"
  proof -
    have "length (filter (\<lambda>f. find_one ?T (doc_id f) d = None) ?ms)
        + length (filter (\<lambda>f. \<not> find_one ?T (doc_id f) d = None) ?ms) = length ?ms"
      by (rule sum_length_filter_compl)
    with that have "length (filter (\<lambda>f. find_one ?T (doc_id f) d = None) ?ms) = 2"
      by simp
    with c1 show ?thesis by simp
  qed
  show ?thesis
    unfolding run
  proof (intro conjI ballI impI)
    show "fst ?run = Inr (length (filter (\<lambda>f. find_one ?T (doc_id f) d = None) ?ms))"
      by (rule c1)
  next
    fix f assume "f \<in> set ?ms" "find_one ?T (doc_id f) d \<noteq> None"
    from c2 [OF this] show "find_one ?F (doc_id f) (snd ?run) = Some f"
      and "find_one ?T (doc_id f) (snd ?run) = find_one ?T (doc_id f) d"
      by blast+
  next
    fix f assume "f \<in> set ?ms" "find_one ?T (doc_id f) d = None"
    from c3 [OF this] show "find_one ?F (doc_id f) (snd ?run) = None"
      and "\<exists>t. find_one ?T (doc_id f) (snd ?run)
             = Some (f\<lparr>collection_type := to_collection, moved_date := Some t\<rparr>)"
      by blast+
  next
    assume "length ?ms = 3 \<and> length (filter (\<lambda>f. find_one ?T (doc_id f) d \<noteq> None) ?ms) = 1"
    then show "fst ?run = Inr 2" by (rule c4)
  qed
qed

theorem bulk_move_partial_success_witness:
  "map_option fst (bulk_move_files (\<lambda>i. 100 + int i) ''cat'' ''primary'' ''clouds'' cats_db) = Some (Inr 2) \<and>
   map_option (\<lambda>r. find_one primary_collection ''b'' (snd r))
     (bulk_move_files (\<lambda>i. 100 + int i) ''cat'' ''primary'' ''clouds'' cats_db)
     = Some (Some (example_doc ''b'' ''big cat two'' ''primary''))"
proof -
  let ?flt = "filter_query False (the (compile_query (strip ''cat'')))"
  let ?clock = "\<lambda>i. 100 + int i"
  let ?b = "example_doc ''b'' ''big cat two'' ''primary''"
  have "compile_query (strip ''cat'') \<noteq> None" by code_simp
  then have "compile_query (strip ''cat'') = Some (the (compile_query (strip ''cat'')))" by simp
  then have bm: "bulk_move_files ?clock ''cat'' ''primary'' ''clouds'' cats_db
      = Some (bulk_move_with ?flt ?clock ''primary'' ''clouds'' cats_db)"
    unfolding bulk_move_files_def by (metis option.simps(9))
  have gp: "get_collection_by_name ''primary'' = primary_collection"
    and gc: "get_collection_by_name ''clouds'' = clouds_collection"
    by (simp_all add: get_collection_by_name_def)
  have h1: "\<not> full cats_db (get_collection_by_name ''clouds'')"
    by (simp add: cats_db_def empty_db_def)
  have h2: "distinct (map doc_id (colls cats_db (get_collection_by_name ''primary'')))"
    by (simp add: gp cats_db_def empty_db_def example_doc_def)
  have n: "length (find_matching ?flt (get_collection_by_name ''primary'') cats_db) = 3 \<and>
      length (filter (\<lambda>f. find_one (get_collection_by_name ''clouds'') (doc_id f) cats_db \<noteq> None)
        (find_matching ?flt (get_collection_by_name ''primary'') cats_db)) = 1"
    by code_simp
  have m: "?b \<in> set (find_matching ?flt (get_collection_by_name ''primary'') cats_db)"
    by code_simp
  have c: "find_one (get_collection_by_name ''clouds'') (doc_id ?b) cats_db \<noteq> None"
    by code_simp
  note t = bulk_move_partial_success [OF h1 h2, where flt = ?flt and clock = ?clock]
  from t n have r1: "fst (bulk_move_with ?flt ?clock ''primary'' ''clouds'' cats_db) = Inr 2"
    by blast
  from t m c have "find_one (get_collection_by_name ''primary'') (doc_id ?b)
      (snd (bulk_move_with ?flt ?clock ''primary'' ''clouds'' cats_db)) = Some ?b"
    by blast
  then have r2: "find_one primary_collection ''b''
      (snd (bulk_move_with ?flt ?clock ''primary'' ''clouds'' cats_db)) = Some ?b"
    by (simp add: gp example_doc_def)
  from r1 r2 show ?thesis
    by (simp only: bm option.map)
qed

end
